theory Spec2Isabelle
  imports Main "HOL-Library.Word" "HOL-Library.Sublist"
begin

section \<open>Data model\<close>

text \<open>
  The script \<^verbatim>\<open>Streamlit.py\<close> keeps three attributes in the session state of the
  display host: \<^verbatim>\<open>messages\<close> (the transcript, a list of role/content dictionaries),
  \<^verbatim>\<open>pdf_contents\<close> (a list of document dictionaries) and \<^verbatim>\<open>protocols_text\<close> (a string).
  Python strings are modelled as \<^typ>\<open>string\<close>, file bytes as 8-bit words. Python lists
  of content items are mutable objects: they live in a heap and are named by their address,
  so that \<^verbatim>\<open>.copy()\<close> and \<^verbatim>\<open>.append()\<close> can be told apart from a mutation of the stored list.
\<close>

type_synonym byte = "8 word"

type_synonym addr = nat

text \<open>The dictionary under the key \<^verbatim>\<open>source\<close> of a document item (lines 48-52).\<close>

record doc_source =
  source_type :: string
  media_type :: string
  data :: string

text \<open>
  A content item is either \<^verbatim>\<open>{"type": "document", "source": ..., "cache_control": {"type": ...}}\<close>
  (lines 46-54) or \<^verbatim>\<open>{"type": "text", "text": ...}\<close> (lines 125-128).
\<close>

datatype content_item = Document doc_source string | TextItem string

text \<open>An entry of \<^verbatim>\<open>st.session_state.messages\<close>: \<^verbatim>\<open>{"role": ..., "content": ...}\<close>.\<close>

record turn =
  role :: string
  content :: string

text \<open>
  An entry of \<^verbatim>\<open>api_messages\<close>: its content is a plain string (line 138) or a reference to
  the list object \<^verbatim>\<open>first_message_content\<close> (line 131).
\<close>

datatype message_content = PlainText string | ContentList addr

record api_message =
  msg_role :: string
  msg_content :: message_content

text \<open>
  What the provider receives: the keyword arguments of \<^verbatim>\<open>client.messages.stream\<close>
  (lines 144-149), with every list reference replaced by the items the list holds at the
  moment of the call.
\<close>

datatype payload_content = PayloadText string | PayloadItems "content_item list"

record payload_message =
  payload_role :: string
  payload_content :: payload_content

record request =
  model :: string
  max_tokens :: nat
  system :: string
  req_messages :: "payload_message list"

text \<open>
  The provider is outside the program. A call yields a finite sequence of text increments
  and then either completes or raises an exception with a message; an exception raised
  before the first increment is the case of an empty sequence.
\<close>

datatype stream_end = Completed | Raised string

record stream_outcome =
  text_stream :: "string list"
  stream_end :: stream_end

text \<open>
  The two directories of the working directory. \<^term>\<open>None\<close> is an absent directory;
  otherwise the entries are given in listing order with their names and contents. Every
  entry is taken to be a readable file (a protocol file decodes as UTF-8).
\<close>

record document_store =
  postop_handouts :: "(string \<times> byte list) list option"
  protocols :: "(string \<times> string) list option"

text \<open>
  The session state: each attribute is \<^term>\<open>None\<close> until the script sets it
  (the tests \<^verbatim>\<open>"messages" not in st.session_state\<close> of lines 78 and 81).
  \<^verbatim>\<open>pdf_contents\<close> holds a reference; \<open>heap\<close> is the store of list objects that
  references point into, an address being a position in it.
\<close>

record session_state =
  messages :: "turn list option"
  pdf_contents :: "addr option"
  protocols_text :: "string option"
  heap :: "content_item list list"

text \<open>
  What the display host hands to one execution of the script: the value returned by
  \<^verbatim>\<open>st.chat_input\<close> (line 92), the value returned by \<^verbatim>\<open>st.button\<close> (line 186), and the
  behaviour of the provider should it be called during this execution.
\<close>

record run_input =
  chat_input :: "string option"
  clear_clicked :: bool
  provider :: "request \<Rightarrow> stream_outcome"

text \<open>
  What one execution shows and sends: the messages of \<^verbatim>\<open>st.error\<close> and \<^verbatim>\<open>st.warning\<close>
  in the loaders, the request and the renderings of the message placeholder, the sidebar.
  An uncaught exception ends the execution; the only ones the script can raise itself
  are reads of a session attribute that is not set.
\<close>

datatype notice = Error string | Warning string

datatype error = AttributeError string


record turn_output =
  request_sent :: request
  placeholder :: "string list"
  error_shown :: "string option"

record sidebar_output =
  pdf_handouts :: nat
  protocol_files :: "nat option"

record run_output =
  load_notices :: "notice list"
  turn_result :: "turn_output option"
  sidebar_shown :: sidebar_output
  rerun :: bool

section \<open>Library functions the script calls\<close>

text \<open>\<^verbatim>\<open>base64.b64encode(...).decode()\<close>: the standard alphabet, padded with \<^verbatim>\<open>=\<close>.\<close>

definition b64_alphabet :: string where
  "b64_alphabet = ''ABCDEFGHIJKLMNOPQRSTUVWXYZabcdefghijklmnopqrstuvwxyz0123456789+/''"

definition b64_char :: "nat \<Rightarrow> char" where
  "b64_char n = b64_alphabet ! (n mod 64)"

fun b64encode :: "byte list \<Rightarrow> string" where
  "b64encode (a # b # c # rest) =
     [b64_char (unat a div 4),
      b64_char ((unat a mod 4) * 16 + unat b div 16),
      b64_char ((unat b mod 16) * 4 + unat c div 64),
      b64_char (unat c mod 64)] @ b64encode rest"
| "b64encode [a, b] =
     [b64_char (unat a div 4),
      b64_char ((unat a mod 4) * 16 + unat b div 16),
      b64_char ((unat b mod 16) * 4),
      CHR ''='']"
| "b64encode [a] =
     [b64_char (unat a div 4),
      b64_char ((unat a mod 4) * 16),
      CHR ''='', CHR ''='']"
| "b64encode [] = []"

text \<open>
  \<^verbatim>\<open>Path.glob("*" + ext)\<close>: the entries of the listing whose name ends with the
  extension, in listing order.
\<close>

definition glob_ext :: "string \<Rightarrow> (string \<times> 'a) list \<Rightarrow> (string \<times> 'a) list" where
  "glob_ext ext entries = filter (\<lambda>entry. suffix ext (fst entry)) entries"

text \<open>
  \<^verbatim>\<open>str.count(sub)\<close>: the number of non-overlapping occurrences of \<^verbatim>\<open>sub\<close>, scanning
  from the left; for the empty \<^verbatim>\<open>sub\<close>, one more than the length.
\<close>

function str_count :: "string \<Rightarrow> string \<Rightarrow> nat" where
  "str_count sub [] = (if sub = [] then 1 else 0)"
| "str_count sub (c # cs) =
     (if sub = [] then Suc (str_count sub cs)
      else if prefix sub (c # cs) then Suc (str_count sub (drop (length sub) (c # cs)))
      else str_count sub cs)"
  by pat_completeness auto
termination
  by (relation "measure (\<lambda>(sub, s). length s)") auto

text \<open>
  The list operations on the heap: a new list object, a shallow copy, an append in place.
  A Python reference always names a live object, so the operations are only meant for an
  address below the length of the heap; the statements about them carry that condition.
\<close>

definition heap_alloc :: "content_item list \<Rightarrow> content_item list list \<Rightarrow> content_item list list \<times> addr" where
  "heap_alloc items h = (h @ [items], length h)"

definition list_copy :: "addr \<Rightarrow> content_item list list \<Rightarrow> content_item list list \<times> addr" where
  "list_copy a h = heap_alloc (h ! a) h"

definition list_append :: "addr \<Rightarrow> content_item \<Rightarrow> content_item list list \<Rightarrow> content_item list list" where
  "list_append a item h = h[a := (h ! a) @ [item]]"

section \<open>The loaders\<close>

text \<open>\<^verbatim>\<open>load_pdfs\<close> (lines 30-56), with the messages it reports.\<close>

definition load_pdfs :: "document_store \<Rightarrow> notice list \<times> content_item list" where
  "load_pdfs store =
     (case postop_handouts store of
        None \<Rightarrow> ([Error (''Directory '' @ [CHR 0x27] @ ''postop_handouts'' @ [CHR 0x27] @ '' not found!'')], [])
      | Some entries \<Rightarrow>
          (let pdf_files = glob_ext ''.pdf'' entries in
           if pdf_files = []
           then ([Warning (''No PDF files found in '' @ [CHR 0x27] @ ''postop_handouts'' @ [CHR 0x27])], [])
           else ([], map (\<lambda>(name, pdf_data).
                   Document \<lparr>source_type = ''base64'', media_type = ''application/pdf'',
                             data = b64encode pdf_data\<rparr> ''ephemeral'') pdf_files)))"

text \<open>The header of line 72, \<^verbatim>\<open>f"\n\n=== {protocol_file.name} ===\n\n"\<close>.\<close>

definition protocol_header :: "string \<Rightarrow> string" where
  "protocol_header name = ''\<newline>\<newline>=== '' @ name @ '' ===\<newline>\<newline>''"

text \<open>\<^verbatim>\<open>load_protocols\<close> (lines 59-75): the loop appends a header and the file's text.\<close>

definition load_protocols :: "document_store \<Rightarrow> string" where
  "load_protocols store =
     (case protocols store of
        None \<Rightarrow> ''''
      | Some entries \<Rightarrow>
          (let protocol_files = glob_ext ''.txt'' entries in
           if protocol_files = [] then ''''
           else foldl (\<lambda>protocols_text (name, text).
                   (protocols_text @ protocol_header name) @ text)
                 '''' protocol_files))"

section \<open>The script\<close>

text \<open>
  The model starts at line 77, with the client of lines 19-27 created. Calls that only
  draw (the title, the transcript of lines 86-89, the user's bubble, the text of the
  sidebar) are left out; the placeholder of the assistant's bubble, the error line and the
  two counts of the sidebar are kept.
\<close>

text \<open>Lines 78-84: the attributes are set on the first execution of a session.\<close>

definition init_session_state :: "document_store \<Rightarrow> session_state \<Rightarrow> session_state \<times> notice list" where
  "init_session_state store s =
     (let s1 = (if messages s = None then s\<lparr>messages := Some []\<rparr> else s) in
      if pdf_contents s1 = None then
        (let (notices, pdfs) = load_pdfs store;
             (h, a) = heap_alloc pdfs (heap s1)
         in (s1\<lparr>heap := h, pdf_contents := Some a,
                 protocols_text := Some (load_protocols store)\<rparr>, notices))
      else (s1, []))"

text \<open>Lines 105-117: the instruction block, with the protocols when there are any.\<close>

definition base_system_message :: string where
  "base_system_message =
     ''You are a helpful post-operative care assistant for Dr. Carofino's surgical practice. Your role is to help patients understand their post-operative instructions and answer questions about their recovery.\<newline>\<newline>Guidelines:\<newline>- Answer questions based on the post-operative instruction handouts and protocols provided\<newline>- Be clear, compassionate, and encouraging\<newline>- If information isn't in the handouts, say so and recommend contacting the office\<newline>- Always prioritize patient safety - if something sounds urgent, recommend immediate contact with the office or emergency services\<newline>- Use simple, patient-friendly language\<newline>- When relevant, cite which specific handout or protocol you're referencing''"

definition system_message :: "string \<Rightarrow> string" where
  "system_message protocols_str =
     (if protocols_str \<noteq> [] then base_system_message @ ''\<newline>\<newline>Additional Protocols:\<newline>'' @ protocols_str
      else base_system_message)"

text \<open>
  Lines 120-139: \<^verbatim>\<open>api_messages\<close>, built from the transcript \<open>msgs\<close> (the value of
  \<^verbatim>\<open>st.session_state.messages\<close>, set by line 94). With one turn, the stored list is copied,
  the copy gets the text item appended, and the single entry refers to the copy.
\<close>

definition build_api_messages :: "turn list \<Rightarrow> session_state \<Rightarrow> error + (session_state \<times> api_message list)" where
  "build_api_messages msgs s =
     (if length msgs = 1 then
        (case pdf_contents s of
           None \<Rightarrow> Inl (AttributeError ''pdf_contents'')
         | Some pdfs \<Rightarrow>
             (let (h1, first_message_content) = list_copy pdfs (heap s);
                  h2 = list_append first_message_content (TextItem (content (msgs ! 0))) h1
              in Inr (s\<lparr>heap := h2\<rparr>,
                      [\<lparr>msg_role = ''user'', msg_content = ContentList first_message_content\<rparr>])))
      else Inr (s, map (\<lambda>msg. \<lparr>msg_role = role msg, msg_content = PlainText (content msg)\<rparr>) msgs))"

text \<open>The entry as it is sent: a reference is read in the heap when the call is made.\<close>

definition serialize :: "content_item list list \<Rightarrow> api_message \<Rightarrow> payload_message" where
  "serialize h m =
     \<lparr>payload_role = msg_role m,
      payload_content = (case msg_content m of
                           PlainText t \<Rightarrow> PayloadText t
                         | ContentList a \<Rightarrow> PayloadItems (h ! a))\<rparr>"

text \<open>The continuation marker of line 152 (U+258C, in UTF-8).\<close>

definition cursor :: string where
  "cursor = [CHR 0xE2, CHR 0x96, CHR 0x8C]"

text \<open>
  Lines 150-152: the loop over the increments; it returns \<^verbatim>\<open>full_response\<close> and what the
  placeholder showed at each step.
\<close>

fun text_loop :: "string \<Rightarrow> string list \<Rightarrow> string \<times> string list" where
  "text_loop full_response [] = (full_response, [])"
| "text_loop full_response (text # rest) =
     (let full_response' = full_response @ text;
          (final, renders) = text_loop full_response' rest
      in (final, (full_response' @ cursor) # renders))"

text \<open>
  Lines 94-160: the handler of a prompt. The exception of the provider leaves the
  \<^verbatim>\<open>with\<close> block before lines 154-157 and is caught by line 159.
\<close>

definition handle_prompt :: "(request \<Rightarrow> stream_outcome) \<Rightarrow> string \<Rightarrow> session_state \<Rightarrow> error + (session_state \<times> turn_output)" where
  "handle_prompt call prompt s =
     (case messages s of
        None \<Rightarrow> Inl (AttributeError ''messages'')
      | Some earlier \<Rightarrow>
          (let msgs = earlier @ [\<lparr>role = ''user'', content = prompt\<rparr>];
               s1 = s\<lparr>messages := Some msgs\<rparr>
           in case protocols_text s1 of
                None \<Rightarrow> Inl (AttributeError ''protocols_text'')
              | Some protocols_str \<Rightarrow>
                  (case build_api_messages msgs s1 of
                     Inl e \<Rightarrow> Inl e
                   | Inr (s2, api_messages) \<Rightarrow>
                       (let req = \<lparr>model = ''claude-sonnet-4-20250514'', max_tokens = 2000,
                                   system = system_message protocols_str,
                                   req_messages = map (serialize (heap s2)) api_messages\<rparr>;
                            outcome = call req;
                            (full_response, renders) = text_loop '''' (text_stream outcome)
                        in case stream_end outcome of
                             Completed \<Rightarrow>
                               Inr (s2\<lparr>messages := Some (msgs @ [\<lparr>role = ''assistant'', content = full_response\<rparr>])\<rparr>,
                                    \<lparr>request_sent = req, placeholder = renders @ [full_response],
                                     error_shown = None\<rparr>)
                           | Raised e \<Rightarrow>
                               Inr (s2, \<lparr>request_sent = req, placeholder = renders,
                                         error_shown = Some (''Error: '' @ e)\<rparr>)))))"

text \<open>
  Lines 178-181: the number of handouts, and, when the protocol text is not empty, the
  number written after \<^verbatim>\<open>Protocol Files:\<close>.
\<close>

definition protocol_count :: "string \<Rightarrow> nat option" where
  "protocol_count text = (if text \<noteq> [] then Some (str_count ''==='' text) else None)"

definition sidebar :: "session_state \<Rightarrow> error + sidebar_output" where
  "sidebar s =
     (case pdf_contents s of
        None \<Rightarrow> Inl (AttributeError ''pdf_contents'')
      | Some pdfs \<Rightarrow>
          (case protocols_text s of
             None \<Rightarrow> Inl (AttributeError ''protocols_text'')
           | Some protocols_str \<Rightarrow>
               Inr \<lparr>pdf_handouts = length (heap s ! pdfs), protocol_files = protocol_count protocols_str\<rparr>))"

text \<open>
  Lines 92-160: the walrus test of line 92 holds for a string that is not empty, and only
  then the handler runs.
\<close>

definition chat_turn :: "run_input \<Rightarrow> session_state \<Rightarrow> error + (session_state \<times> turn_output option)" where
  "chat_turn inp s =
     (case chat_input inp of
        None \<Rightarrow> Inr (s, None)
      | Some prompt \<Rightarrow>
          if prompt \<noteq> [] then
            (case handle_prompt (provider inp) prompt s of
               Inl e \<Rightarrow> Inl e
             | Inr (s2, out) \<Rightarrow> Inr (s2, Some out))
          else Inr (s, None))"

text \<open>
  One pass over the script, lines 77-188. Line 187 empties the transcript and line 188
  asks for another pass.
\<close>

definition script_body :: "run_input \<Rightarrow> document_store \<Rightarrow> session_state \<Rightarrow> error + (session_state \<times> run_output)" where
  "script_body inp store s =
     (let (s1, notices) = init_session_state store s in
      case chat_turn inp s1 of
        Inl e \<Rightarrow> Inl e
      | Inr (s2, turn_out) \<Rightarrow>
          (case sidebar s2 of
             Inl e \<Rightarrow> Inl e
           | Inr side \<Rightarrow>
               if clear_clicked inp
               then Inr (s2\<lparr>messages := Some []\<rparr>,
                         \<lparr>load_notices = notices, turn_result = turn_out, sidebar_shown = side, rerun = True\<rparr>)
               else Inr (s2,
                         \<lparr>load_notices = notices, turn_result = turn_out, sidebar_shown = side, rerun = False\<rparr>)))"

text \<open>
  One interaction: the pass it triggers and, after \<^verbatim>\<open>st.rerun()\<close>, the pass that follows,
  in which no widget reports a value. The result lists what each pass produced.
\<close>

definition script_run :: "run_input \<Rightarrow> document_store \<Rightarrow> session_state \<Rightarrow> error + (session_state \<times> run_output list)" where
  "script_run inp store s =
     (case script_body inp store s of
        Inl e \<Rightarrow> Inl e
      | Inr (s1, out) \<Rightarrow>
          if rerun out then
            (case script_body (inp\<lparr>chat_input := None, clear_clicked := False\<rparr>) store s1 of
               Inl e \<Rightarrow> Inl e
             | Inr (s2, out2) \<Rightarrow> Inr (s2, [out, out2]))
          else Inr (s1, [out]))"

text \<open>A session: the interactions one after the other, from a given state.\<close>

fun session_trace :: "document_store \<Rightarrow> run_input list \<Rightarrow> session_state \<Rightarrow> error + (session_state \<times> run_output list)" where
  "session_trace store [] s = Inr (s, [])"
| "session_trace store (inp # inps) s =
     (case script_run inp store s of
        Inl e \<Rightarrow> Inl e
      | Inr (s1, outs) \<Rightarrow>
          (case session_trace store inps s1 of
             Inl e \<Rightarrow> Inl e
           | Inr (s2, outs2) \<Rightarrow> Inr (s2, outs @ outs2)))"

text \<open>The session state before the first execution: no attribute, no list object.\<close>

definition new_session :: session_state where
  "new_session = \<lparr>messages = None, pdf_contents = None, protocols_text = None, heap = []\<rparr>"

section \<open>Notions used in the statements\<close>

text \<open>
  A session state in which the three attributes are set and the reference of
  \<^verbatim>\<open>pdf_contents\<close> names a list object of the heap. Every state after the first execution
  of the script is of this kind.
\<close>

definition initialised :: "session_state \<Rightarrow> bool" where
  "initialised s =
     (messages s \<noteq> None \<and> protocols_text s \<noteq> None \<and>
      (case pdf_contents s of None \<Rightarrow> False | Some a \<Rightarrow> a < length (heap s)))"

text \<open>The transcript of a state; there is none before the first execution.\<close>

definition transcript :: "session_state \<Rightarrow> turn list" where
  "transcript s = (case messages s of None \<Rightarrow> [] | Some msgs \<Rightarrow> msgs)"

text \<open>The document attachments of a payload, in order, and whether a request has any.\<close>

fun is_document :: "content_item \<Rightarrow> bool" where
  "is_document (Document src cc) = True"
| "is_document (TextItem t) = False"

definition attachments :: "payload_message list \<Rightarrow> content_item list" where
  "attachments ms =
     concat (map (\<lambda>m. case payload_content m of
                          PayloadText t \<Rightarrow> []
                        | PayloadItems items \<Rightarrow> filter is_document items) ms)"

definition carries_documents :: "request \<Rightarrow> bool" where
  "carries_documents req = (attachments (req_messages req) \<noteq> [])"

text \<open>The requests sent during some executions, in order.\<close>

definition requests_of :: "run_output list \<Rightarrow> request list" where
  "requests_of outs =
     concat (map (\<lambda>out. case turn_result out of None \<Rightarrow> [] | Some t \<Rightarrow> [request_sent t]) outs)"

text \<open>The prompt of an interaction, when there is one that passes the test of line 92.\<close>

definition submitted :: "run_input \<Rightarrow> string option" where
  "submitted inp =
     (case chat_input inp of
        None \<Rightarrow> None
      | Some prompt \<Rightarrow> if prompt \<noteq> [] then Some prompt else None)"



text \<open>
  Closed forms of what one interaction does to an initialised state, used to state the
  lemmas about \<^const>\<open>handle_prompt\<close> and \<^const>\<open>script_run\<close>: the user turn, the turns a
  stream outcome adds, the payload and the request for a transcript, and the turns and
  requests of an interaction.
\<close>

definition user_turn :: "string \<Rightarrow> turn" where
  "user_turn prompt = \<lparr>role = ''user'', content = prompt\<rparr>"

definition reply_turns :: "stream_outcome \<Rightarrow> turn list" where
  "reply_turns outcome =
     (case stream_end outcome of
        Completed \<Rightarrow> [\<lparr>role = ''assistant'', content = concat (text_stream outcome)\<rparr>]
      | Raised e \<Rightarrow> [])"

definition payload_for :: "content_item list \<Rightarrow> turn list \<Rightarrow> payload_message list" where
  "payload_for docs msgs =
     (if length msgs = 1
      then [\<lparr>payload_role = ''user'', payload_content = PayloadItems (docs @ [TextItem (content (msgs ! 0))])\<rparr>]
      else map (\<lambda>msg. \<lparr>payload_role = role msg, payload_content = PayloadText (content msg)\<rparr>) msgs)"

definition request_for :: "string \<Rightarrow> content_item list \<Rightarrow> turn list \<Rightarrow> request" where
  "request_for protocols_str docs msgs =
     \<lparr>model = ''claude-sonnet-4-20250514'', max_tokens = 2000,
      system = system_message protocols_str, req_messages = payload_for docs msgs\<rparr>"

definition new_turns :: "run_input \<Rightarrow> string \<Rightarrow> content_item list \<Rightarrow> turn list \<Rightarrow> turn list" where
  "new_turns inp protocols_str docs msgs =
     (case submitted inp of
        None \<Rightarrow> []
      | Some prompt \<Rightarrow>
          user_turn prompt #
          reply_turns (provider inp (request_for protocols_str docs (msgs @ [user_turn prompt]))))"

definition run_requests :: "run_input \<Rightarrow> string \<Rightarrow> content_item list \<Rightarrow> turn list \<Rightarrow> request list" where
  "run_requests inp protocols_str docs msgs =
     (case submitted inp of
        None \<Rightarrow> []
      | Some prompt \<Rightarrow> [request_for protocols_str docs (msgs @ [user_turn prompt])])"

text \<open>
  Concrete sessions for the examples: a store with two handouts and two protocol files,
  a provider that answers in two increments, one that fails after the first increment,
  and the three kinds of interaction (page load, prompt, click on the clear button).
\<close>

definition demo_store :: document_store where
  "demo_store =
     \<lparr>postop_handouts = Some [(''shoulder.pdf'', [77, 97, 110]), (''knee.pdf'', [77, 97])],
      protocols = Some [(''wound_care.txt'', ''Keep dry.''), (''pt_schedule.txt'', ''Week 1: rest.'')]\<rparr>"

definition replying :: "request \<Rightarrow> stream_outcome" where
  "replying req = \<lparr>text_stream = [''After '', ''two weeks.''], stream_end = Completed\<rparr>"

definition failing :: "request \<Rightarrow> stream_outcome" where
  "failing req = \<lparr>text_stream = [''After ''], stream_end = Raised ''rate_limit_error''\<rparr>"

definition page_load :: run_input where
  "page_load = \<lparr>chat_input = None, clear_clicked = False, provider = replying\<rparr>"

definition ask :: "string \<Rightarrow> (request \<Rightarrow> stream_outcome) \<Rightarrow> run_input" where
  "ask prompt call = \<lparr>chat_input = Some prompt, clear_clicked = False, provider = call\<rparr>"

definition clear_click :: run_input where
  "clear_click = \<lparr>chat_input = None, clear_clicked = True, provider = replying\<rparr>"

text \<open>The state after the page load of a session on the example store.\<close>

definition demo_state :: session_state where
  "demo_state =
     \<lparr>messages = Some [], pdf_contents = Some 0,
      protocols_text = Some (load_protocols demo_store),
      heap = [snd (load_pdfs demo_store)]\<rparr>"

text \<open>What a session from \<^const>\<open>new_session\<close> leaves and sends.\<close>

definition final_transcript :: "document_store \<Rightarrow> run_input list \<Rightarrow> turn list option" where
  "final_transcript store inps =
     (case session_trace store inps new_session of
        Inl e \<Rightarrow> None
      | Inr (s, outs) \<Rightarrow> messages s)"

definition session_requests :: "document_store \<Rightarrow> run_input list \<Rightarrow> request list" where
  "session_requests store inps =
     (case session_trace store inps new_session of
        Inl e \<Rightarrow> []
      | Inr (s, outs) \<Rightarrow> requests_of outs)"

section \<open>Lemmas about the steps of the script\<close>

lemma text_loop_fst: "fst (text_loop acc xs) = acc @ concat xs"
  by (induction xs arbitrary: acc) (simp_all add: Let_def case_prod_beta)

lemma build_api_messages_eq:
  assumes "pdf_contents s = Some a" "a < length (heap s)"
  shows "build_api_messages msgs s =
     (if length msgs = 1
      then Inr (s\<lparr>heap := heap s @ [heap s ! a @ [TextItem (content (msgs ! 0))]]\<rparr>,
                [\<lparr>msg_role = ''user'', msg_content = ContentList (length (heap s))\<rparr>])
      else Inr (s, map (\<lambda>msg. \<lparr>msg_role = role msg, msg_content = PlainText (content msg)\<rparr>) msgs))"
  using assms
  by (simp add: build_api_messages_def list_copy_def heap_alloc_def list_append_def nth_append)

lemma attachments_plain:
  "attachments (map (\<lambda>m. \<lparr>payload_role = f m, payload_content = PayloadText (g m)\<rparr>) ms) = []"
  by (induction ms) (simp_all add: attachments_def)

lemma serialize_build:
  assumes "pdf_contents s = Some a" "a < length (heap s)"
    and "build_api_messages msgs s = Inr (s', api)"
  shows "map (serialize (heap s')) api = payload_for (heap s ! a) msgs"
    and "heap s' = (if length msgs = 1 then heap s @ [heap s ! a @ [TextItem (content (msgs ! 0))]] else heap s)"
    and "messages s' = messages s" and "pdf_contents s' = pdf_contents s"
    and "protocols_text s' = protocols_text s"
  using assms
  by (auto simp: build_api_messages_eq payload_for_def serialize_def split: if_splits)

lemma handle_prompt_step:
  assumes "messages s = Some ms" "protocols_text s = Some pt" "pdf_contents s = Some a"
    and "a < length (heap s)"
  shows "\<exists>s' out. handle_prompt call p s = Inr (s', out) \<and>
      request_sent out = request_for pt (heap s ! a) (ms @ [user_turn p]) \<and>
      messages s' = Some (ms @ [user_turn p] @ reply_turns (call (request_sent out))) \<and>
      pdf_contents s' = Some a \<and> protocols_text s' = Some pt \<and>
      heap s' = (if ms = [] then heap s @ [heap s ! a @ [TextItem p]] else heap s) \<and>
      error_shown out = (case stream_end (call (request_sent out)) of
                           Completed \<Rightarrow> None | Raised e \<Rightarrow> Some (''Error: '' @ e)) \<and>
      placeholder out = snd (text_loop [] (text_stream (call (request_sent out)))) @
                        (case stream_end (call (request_sent out)) of
                           Completed \<Rightarrow> [concat (text_stream (call (request_sent out)))]
                         | Raised e \<Rightarrow> [])"
proof -
  let ?msgs = "ms @ [\<lparr>role = ''user'', content = p\<rparr>]"
  let ?H = "if ms = [] then heap s @ [heap s ! a @ [TextItem p]] else heap s"
  let ?s2 = "s\<lparr>messages := Some ?msgs, heap := ?H\<rparr>"
  let ?req = "request_for pt (heap s ! a) ?msgs"
  let ?full = "concat (text_stream (call ?req))"
  let ?renders = "snd (text_loop [] (text_stream (call ?req)))"
  have hp: "handle_prompt call p s =
      (case stream_end (call ?req) of
         Completed \<Rightarrow>
           Inr (?s2\<lparr>messages := Some (?msgs @ [\<lparr>role = ''assistant'', content = ?full\<rparr>])\<rparr>,
                \<lparr>request_sent = ?req, placeholder = ?renders @ [?full], error_shown = None\<rparr>)
       | Raised e \<Rightarrow>
           Inr (?s2, \<lparr>request_sent = ?req, placeholder = ?renders,
                     error_shown = Some (''Error: '' @ e)\<rparr>))"
  proof (cases "ms = []")
    case True
    then show ?thesis
      using assms
      by (simp add: handle_prompt_def build_api_messages_eq Let_def serialize_def payload_for_def
            request_for_def case_prod_beta text_loop_fst split: stream_end.splits)
  next
    case False
    then show ?thesis
      using assms
      by (simp add: handle_prompt_def build_api_messages_eq Let_def serialize_def payload_for_def
            request_for_def case_prod_beta text_loop_fst comp_def split: stream_end.splits)
  qed
  show ?thesis
  proof (cases "stream_end (call ?req)")
    case Completed
    then show ?thesis
      using assms(2,3) by (simp add: hp user_turn_def reply_turns_def)
  next
    case (Raised e)
    then show ?thesis
      using assms(2,3) by (simp add: hp user_turn_def reply_turns_def)
  qed
qed

lemma init_initialised:
  "initialised s \<Longrightarrow> init_session_state store s = (s, [])"
  by (auto simp: initialised_def init_session_state_def split: option.splits)

lemma init_new_session:
  "\<exists>s1 notices. init_session_state store new_session = (s1, notices) \<and> initialised s1 \<and>
     messages s1 = Some [] \<and> pdf_contents s1 = Some 0 \<and>
     heap s1 = [snd (load_pdfs store)] \<and> protocols_text s1 = Some (load_protocols store)"
  by (simp add: init_session_state_def new_session_def initialised_def heap_alloc_def
        case_prod_beta)

lemma sidebar_initialised:
  assumes "protocols_text s = Some pt" "pdf_contents s = Some a"
  shows "sidebar s = Inr \<lparr>pdf_handouts = length (heap s ! a), protocol_files = protocol_count pt\<rparr>"
  using assms by (simp add: sidebar_def)

lemma script_body_step:
  assumes i: "init_session_state store s = (s1, notices)"
    and m: "messages s1 = Some ms" and pt: "protocols_text s1 = Some pt"
    and a: "pdf_contents s1 = Some a" "a < length (heap s1)"
  shows "\<exists>s' out. script_body inp store s = Inr (s', out) \<and>
      messages s' = Some (if clear_clicked inp then [] else ms @ new_turns inp pt (heap s1 ! a) ms) \<and>
      pdf_contents s' = Some a \<and> protocols_text s' = Some pt \<and>
      a < length (heap s') \<and> heap s' ! a = heap s1 ! a \<and>
      requests_of [out] = run_requests inp pt (heap s1 ! a) ms \<and>
      rerun out = clear_clicked inp \<and>
      (submitted inp = None \<and> \<not> clear_clicked inp \<longrightarrow> s' = s1) \<and>
      (case submitted inp of
         None \<Rightarrow> turn_result out = None
       | Some p \<Rightarrow>
           \<exists>t. turn_result out = Some t \<and>
             request_sent t = request_for pt (heap s1 ! a) (ms @ [user_turn p]) \<and>
             error_shown t = (case stream_end (provider inp (request_sent t)) of
                                Completed \<Rightarrow> None | Raised e \<Rightarrow> Some (''Error: '' @ e)) \<and>
             placeholder t = snd (text_loop [] (text_stream (provider inp (request_sent t)))) @
                        (case stream_end (provider inp (request_sent t)) of
                           Completed \<Rightarrow> [concat (text_stream (provider inp (request_sent t)))]
                         | Raised e \<Rightarrow> []))"
proof (cases "submitted inp")
  case None
  then have ci: "chat_turn inp s1 = Inr (s1, None)"
    by (auto simp: chat_turn_def submitted_def split: option.splits if_splits)
  show ?thesis
    using None m pt a
    by (simp add: script_body_def i ci sidebar_initialised new_turns_def run_requests_def
          requests_of_def)
next
  case (Some p)
  obtain s2 out where h: "handle_prompt (provider inp) p s1 = Inr (s2, out)"
    and f: "request_sent out = request_for pt (heap s1 ! a) (ms @ [user_turn p])"
      "messages s2 = Some (ms @ [user_turn p] @ reply_turns (provider inp (request_sent out)))"
      "pdf_contents s2 = Some a" "protocols_text s2 = Some pt"
      "heap s2 = (if ms = [] then heap s1 @ [heap s1 ! a @ [TextItem p]] else heap s1)"
      "error_shown out = (case stream_end (provider inp (request_sent out)) of
                                Completed \<Rightarrow> None | Raised e \<Rightarrow> Some (''Error: '' @ e))"
      "placeholder out = snd (text_loop [] (text_stream (provider inp (request_sent out)))) @
                        (case stream_end (provider inp (request_sent out)) of
                           Completed \<Rightarrow> [concat (text_stream (provider inp (request_sent out)))]
                         | Raised e \<Rightarrow> [])"
    using handle_prompt_step [OF m pt a, of "provider inp" p] by blast
  from Some have ci: "chat_turn inp s1 = Inr (s2, Some out)"
    by (auto simp: chat_turn_def submitted_def h split: option.splits if_splits)
  have hp: "a < length (heap s2)" "heap s2 ! a = heap s1 ! a"
    using a(2) f(5) by (simp_all add: nth_append)
  show ?thesis
    using Some f(1-4,6,7) hp
    by (simp add: script_body_def i ci sidebar_initialised new_turns_def run_requests_def
          requests_of_def)
qed

lemma requests_of_append: "requests_of (xs @ ys) = requests_of xs @ requests_of ys"
  by (simp add: requests_of_def)

lemma requests_of_Cons: "requests_of (x # xs) = requests_of [x] @ requests_of xs"
  by (simp add: requests_of_def)

lemma script_run_step:
  assumes i: "init_session_state store s = (s1, notices)"
    and m: "messages s1 = Some ms" and pt: "protocols_text s1 = Some pt"
    and a: "pdf_contents s1 = Some a" "a < length (heap s1)"
  shows "\<exists>s' outs. script_run inp store s = Inr (s', outs) \<and> initialised s' \<and>
      messages s' = Some (if clear_clicked inp then [] else ms @ new_turns inp pt (heap s1 ! a) ms) \<and>
      pdf_contents s' = Some a \<and> protocols_text s' = Some pt \<and>
      a < length (heap s') \<and> heap s' ! a = heap s1 ! a \<and>
      requests_of outs = run_requests inp pt (heap s1 ! a) ms \<and>
      (submitted inp = None \<and> \<not> clear_clicked inp \<longrightarrow> s' = s1)"
proof -
  obtain s' out where b: "script_body inp store s = Inr (s', out)"
    and f: "messages s' = Some (if clear_clicked inp then [] else ms @ new_turns inp pt (heap s1 ! a) ms)"
      "pdf_contents s' = Some a" "protocols_text s' = Some pt"
      "a < length (heap s')" "heap s' ! a = heap s1 ! a"
      "requests_of [out] = run_requests inp pt (heap s1 ! a) ms"
      "rerun out = clear_clicked inp"
      "submitted inp = None \<and> \<not> clear_clicked inp \<longrightarrow> s' = s1"
    using script_body_step [OF i m pt a, of inp] by blast
  have init': "initialised s'"
    using f(1-4) by (simp add: initialised_def)
  show ?thesis
  proof (cases "clear_clicked inp")
    case False
    then show ?thesis
      using b f init' by (simp add: script_run_def)
  next
    case True
    let ?inp2 = "inp\<lparr>chat_input := None, clear_clicked := False\<rparr>"
    have m': "messages s' = Some []" using f(1) True by simp
    have sub2: "submitted ?inp2 = None" "\<not> clear_clicked ?inp2"
      by (simp_all add: submitted_def)
    obtain s2 out2 where b2: "script_body ?inp2 store s' = Inr (s2, out2)"
      and f2: "requests_of [out2] = run_requests ?inp2 pt (heap s' ! a) []"
        "submitted ?inp2 = None \<and> \<not> clear_clicked ?inp2 \<longrightarrow> s2 = s'"
      using script_body_step [OF init_initialised [OF init'] m' f(3) f(2) f(4), of ?inp2] by blast
    have s2: "s2 = s'" using f2(2) sub2 by simp
    have r2: "requests_of [out2] = []"
      using f2(1) sub2 by (simp add: run_requests_def)
    have "requests_of [out, out2] = run_requests inp pt (heap s1 ! a) ms"
      using requests_of_Cons [of out "[out2]"] r2 f(6) by simp
    then show ?thesis
      using True b b2 f init' s2 by (simp add: script_run_def)
  qed
qed

lemma session_trace_initialised:
  assumes "initialised s" "pdf_contents s = Some a"
  shows "\<exists>s' outs. session_trace store inps s = Inr (s', outs) \<and> initialised s' \<and>
      pdf_contents s' = Some a \<and> protocols_text s' = protocols_text s \<and>
      heap s' ! a = heap s ! a"
  using assms
proof (induction inps arbitrary: s)
  case Nil
  then show ?case by simp
next
  case (Cons inp inps)
  from Cons.prems obtain ms pt where m: "messages s = Some ms" "protocols_text s = Some pt"
    and a: "a < length (heap s)"
    by (auto simp: initialised_def)
  obtain s1 outs1 where r: "script_run inp store s = Inr (s1, outs1)" "initialised s1"
    "pdf_contents s1 = Some a" "protocols_text s1 = Some pt" "heap s1 ! a = heap s ! a"
    using script_run_step [OF init_initialised [OF Cons.prems(1)] m Cons.prems(2) a, of inp]
    by blast
  obtain s2 outs2 where t: "session_trace store inps s1 = Inr (s2, outs2)" "initialised s2"
    "pdf_contents s2 = Some a" "protocols_text s2 = protocols_text s1" "heap s2 ! a = heap s1 ! a"
    using Cons.IH [OF r(2,3)] by blast
  show ?case
    using r t m by simp
qed

lemma transcript_Some: "messages s = Some ms \<Longrightarrow> transcript s = ms"
  by (simp add: transcript_def)

lemma session_trace_invariant:
  assumes "initialised s" and "I (transcript s) rs0"
    and step: "\<And>ms rs inp pt docs. I ms rs \<Longrightarrow> inp \<in> set inps \<Longrightarrow>
        I (if clear_clicked inp then [] else ms @ new_turns inp pt docs ms)
          (rs @ run_requests inp pt docs ms)"
  shows "\<exists>s' outs. session_trace store inps s = Inr (s', outs) \<and> initialised s' \<and>
      I (transcript s') (rs0 @ requests_of outs)"
  using assms
proof (induction inps arbitrary: s rs0)
  case Nil
  then show ?case by (simp add: requests_of_def)
next
  case (Cons inp inps)
  from Cons.prems(1) obtain ms pt a where m: "messages s = Some ms" "protocols_text s = Some pt"
    and a: "pdf_contents s = Some a" "a < length (heap s)"
    by (auto simp: initialised_def split: option.splits)
  obtain s1 outs1 where r: "script_run inp store s = Inr (s1, outs1)" "initialised s1"
    "messages s1 = Some (if clear_clicked inp then [] else ms @ new_turns inp pt (heap s ! a) ms)"
    "requests_of outs1 = run_requests inp pt (heap s ! a) ms"
    using script_run_step [OF init_initialised [OF Cons.prems(1)] m a, of inp]
    by blast
  have "I (if clear_clicked inp then [] else ms @ new_turns inp pt (heap s ! a) ms)
          (rs0 @ run_requests inp pt (heap s ! a) ms)"
    using Cons.prems(3) [of ms rs0 inp pt "heap s ! a"] Cons.prems(2) m(1)
    by (simp add: transcript_Some)
  then have I1: "I (transcript s1) (rs0 @ requests_of outs1)"
    using r(3,4) by (simp add: transcript_Some)
  have step': "\<And>ms rs inp pt docs. I ms rs \<Longrightarrow> inp \<in> set inps \<Longrightarrow>
        I (if clear_clicked inp then [] else ms @ new_turns inp pt docs ms)
          (rs @ run_requests inp pt docs ms)"
    using Cons.prems(3) by simp
  obtain s2 outs2 where t: "session_trace store inps s1 = Inr (s2, outs2)" "initialised s2"
    "I (transcript s2) ((rs0 @ requests_of outs1) @ requests_of outs2)"
    using Cons.IH [OF r(2) I1 step'] by blast
  show ?case
    using r(1) t by (simp add: requests_of_append)
qed

lemma session_trace_new_invariant:
  assumes "I [] []"
    and step: "\<And>ms rs inp pt docs. I ms rs \<Longrightarrow> inp \<in> set inps \<Longrightarrow>
        I (if clear_clicked inp then [] else ms @ new_turns inp pt docs ms)
          (rs @ run_requests inp pt docs ms)"
  shows "\<exists>s' outs. session_trace store inps new_session = Inr (s', outs) \<and>
      I (transcript s') (requests_of outs)"
proof (cases inps)
  case Nil
  then show ?thesis
    using assms(1) by (simp add: transcript_def new_session_def requests_of_def)
next
  case (Cons inp rest)
  obtain s1 notices where i: "init_session_state store new_session = (s1, notices)"
    and f: "messages s1 = Some []" "pdf_contents s1 = Some 0" "heap s1 = [snd (load_pdfs store)]"
      "protocols_text s1 = Some (load_protocols store)"
    using init_new_session [of store] by blast
  have a: "0 < length (heap s1)" using f(3) by simp
  obtain s2 outs1 where r: "script_run inp store new_session = Inr (s2, outs1)" "initialised s2"
    "messages s2 = Some (if clear_clicked inp then []
        else [] @ new_turns inp (load_protocols store) (heap s1 ! 0) [])"
    "requests_of outs1 = run_requests inp (load_protocols store) (heap s1 ! 0) []"
    using script_run_step [OF i f(1) f(4) f(2) a, of inp] by blast
  have "I (if clear_clicked inp then [] else [] @ new_turns inp (load_protocols store) (heap s1 ! 0) [])
          ([] @ run_requests inp (load_protocols store) (heap s1 ! 0) [])"
    using step [of "[]" "[]" inp] assms(1) Cons by simp
  then have I1: "I (transcript s2) ([] @ requests_of outs1)"
    using r(3,4) by (simp add: transcript_Some)
  have step': "\<And>ms rs inp pt docs. I ms rs \<Longrightarrow> inp \<in> set rest \<Longrightarrow>
        I (if clear_clicked inp then [] else ms @ new_turns inp pt docs ms)
          (rs @ run_requests inp pt docs ms)"
    using step Cons by simp
  obtain s3 outs2 where t: "session_trace store rest s2 = Inr (s3, outs2)"
    "I (transcript s3) (([] @ requests_of outs1) @ requests_of outs2)"
    using session_trace_invariant [where store = store, OF r(2) I1 step'] by blast
  show ?thesis
    using Cons r(1) t by (simp add: requests_of_append)
qed








lemma init_reachable:
  assumes "s = new_session \<or> initialised s"
  shows "\<exists>s1 n ms pt a. init_session_state store s = (s1, n) \<and> messages s1 = Some ms \<and>
      protocols_text s1 = Some pt \<and> pdf_contents s1 = Some a \<and> a < length (heap s1) \<and>
      transcript s = ms"
proof (cases "initialised s")
  case True
  then show ?thesis
    using init_initialised [OF True, of store]
    by (auto simp: initialised_def transcript_def split: option.splits)
next
  case False
  with assms have "s = new_session" by simp
  then show ?thesis
    using init_new_session [of store] by (auto simp: transcript_def new_session_def)
qed

lemma session_trace_reachable:
  "\<exists>s' outs. session_trace store inps new_session = Inr (s', outs) \<and>
     (s' = new_session \<or> initialised s')"
proof (cases inps)
  case Nil
  then show ?thesis by simp
next
  case (Cons inp rest)
  obtain s1 n ms pt a where i: "init_session_state store new_session = (s1, n)"
    "messages s1 = Some ms" "protocols_text s1 = Some pt" "pdf_contents s1 = Some a"
    "a < length (heap s1)"
    using init_reachable [of new_session store] by blast
  obtain s2 outs1 where r: "script_run inp store new_session = Inr (s2, outs1)" "initialised s2"
    using script_run_step [OF i, of inp] by blast
  obtain a2 where "pdf_contents s2 = Some a2"
    using r(2) by (auto simp: initialised_def split: option.splits)
  then obtain s3 outs2 where "session_trace store rest s2 = Inr (s3, outs2)" "initialised s3"
    using session_trace_initialised [OF r(2), of a2 store rest] by blast
  then show ?thesis
    using Cons r(1) by simp
qed


lemma script_run_turn:
  assumes "initialised s" and "chat_input inp = Some prompt" "prompt \<noteq> []"
    and "\<not> clear_clicked inp"
  shows "\<exists>s' out t. script_run inp store s = Inr (s', [out]) \<and> turn_result out = Some t \<and>
      initialised s' \<and>
      messages s' = Some (transcript s @ user_turn prompt #
                            reply_turns (provider inp (request_sent t))) \<and>
      error_shown t = (case stream_end (provider inp (request_sent t)) of
                         Completed \<Rightarrow> None | Raised e \<Rightarrow> Some (''Error: '' @ e)) \<and>
      placeholder t = snd (text_loop [] (text_stream (provider inp (request_sent t)))) @
                      (case stream_end (provider inp (request_sent t)) of
                         Completed \<Rightarrow> [concat (text_stream (provider inp (request_sent t)))]
                       | Raised e \<Rightarrow> [])"
proof -
  from assms(1) obtain ms pt a where m: "messages s = Some ms" "protocols_text s = Some pt"
    and a: "pdf_contents s = Some a" "a < length (heap s)"
    by (auto simp: initialised_def split: option.splits)
  have sub: "submitted inp = Some prompt"
    using assms(2,3) by (simp add: submitted_def)
  obtain s' out where b: "script_body inp store s = Inr (s', out)"
    and f: "messages s' = Some (if clear_clicked inp then [] else ms @ new_turns inp pt (heap s ! a) ms)"
      "pdf_contents s' = Some a" "protocols_text s' = Some pt" "a < length (heap s')"
      "rerun out = clear_clicked inp"
    and g: "case submitted inp of
         None \<Rightarrow> turn_result out = None
       | Some p \<Rightarrow>
           \<exists>t. turn_result out = Some t \<and>
             request_sent t = request_for pt (heap s ! a) (ms @ [user_turn p]) \<and>
             error_shown t = (case stream_end (provider inp (request_sent t)) of
                                Completed \<Rightarrow> None | Raised e \<Rightarrow> Some (''Error: '' @ e)) \<and>
             placeholder t = snd (text_loop [] (text_stream (provider inp (request_sent t)))) @
                        (case stream_end (provider inp (request_sent t)) of
                           Completed \<Rightarrow> [concat (text_stream (provider inp (request_sent t)))]
                         | Raised e \<Rightarrow> [])"
    using script_body_step [OF init_initialised [OF assms(1)] m a, of inp] by blast
  from g sub obtain t where t: "turn_result out = Some t"
    "request_sent t = request_for pt (heap s ! a) (ms @ [user_turn prompt])"
    "error_shown t = (case stream_end (provider inp (request_sent t)) of
                                Completed \<Rightarrow> None | Raised e \<Rightarrow> Some (''Error: '' @ e))"
    "placeholder t = snd (text_loop [] (text_stream (provider inp (request_sent t)))) @
                        (case stream_end (provider inp (request_sent t)) of
                           Completed \<Rightarrow> [concat (text_stream (provider inp (request_sent t)))]
                         | Raised e \<Rightarrow> [])"
    by auto
  have run: "script_run inp store s = Inr (s', [out])"
    using b f(5) assms(4) by (simp add: script_run_def)
  have init': "initialised s'"
    using f(1-4) by (simp add: initialised_def)
  have "messages s' = Some (transcript s @ user_turn prompt #
                            reply_turns (provider inp (request_sent t)))"
    using f(1) assms(4) sub t(2) m(1) by (simp add: new_turns_def transcript_def)
  then show ?thesis
    using run t(1,3,4) init' by blast
qed

lemma script_run_total:
  assumes "initialised s"
  shows "\<exists>s' outs. script_run inp store s = Inr (s', outs) \<and> initialised s'"
proof -
  from assms obtain ms pt a where m: "messages s = Some ms" "protocols_text s = Some pt"
    and a: "pdf_contents s = Some a" "a < length (heap s)"
    by (auto simp: initialised_def split: option.splits)
  show ?thesis
    using script_run_step [OF init_initialised [OF assms] m a, of inp] by blast
qed

lemma session_trace_new_bundle:
  assumes "inps \<noteq> []"
  shows "\<exists>s' outs. session_trace store inps new_session = Inr (s', outs) \<and>
      pdf_contents s' = Some 0 \<and> heap s' ! 0 = snd (load_pdfs store) \<and>
      protocols_text s' = Some (load_protocols store)"
proof -
  from assms obtain inp rest where c: "inps = inp # rest" by (cases inps) auto
  obtain s1 notices where i: "init_session_state store new_session = (s1, notices)"
    and f: "messages s1 = Some []" "pdf_contents s1 = Some 0" "heap s1 = [snd (load_pdfs store)]"
      "protocols_text s1 = Some (load_protocols store)"
    using init_new_session [of store] by blast
  have a: "0 < length (heap s1)" using f(3) by simp
  obtain s2 outs1 where r: "script_run inp store new_session = Inr (s2, outs1)" "initialised s2"
    "pdf_contents s2 = Some 0" "protocols_text s2 = Some (load_protocols store)"
    "heap s2 ! 0 = heap s1 ! 0"
    using script_run_step [OF i f(1) f(4) f(2) a, of inp] by blast
  obtain s3 outs2 where t: "session_trace store rest s2 = Inr (s3, outs2)"
    "pdf_contents s3 = Some 0" "protocols_text s3 = protocols_text s2" "heap s3 ! 0 = heap s2 ! 0"
    using session_trace_initialised [OF r(2,3), of store rest] by blast
  show ?thesis
    using c r t f(3) by simp
qed

lemma carries_documents_single:
  assumes "carries_documents (request_for pt docs msgs)"
  shows "length msgs = 1"
proof (rule ccontr)
  assume "length msgs \<noteq> 1"
  then have "attachments (payload_for docs msgs) = []"
    by (simp add: payload_for_def attachments_plain)
  with assms show False
    by (simp add: carries_documents_def request_for_def)
qed

lemma length_payload_for: "length (payload_for docs msgs) = length msgs"
  by (simp add: payload_for_def)

lemma run_requests_cases:
  "run_requests inp pt docs ms = [] \<and> new_turns inp pt docs ms = [] \<or>
   (\<exists>p. run_requests inp pt docs ms = [request_for pt docs (ms @ [user_turn p])] \<and>
        new_turns inp pt docs ms \<noteq> [])"
  by (auto simp: run_requests_def new_turns_def split: option.splits)

lemma documents_once_step:
  assumes "filter carries_documents rs = [] \<or> (length (filter carries_documents rs) = 1 \<and> ms \<noteq> [])"
    and "\<not> clear_clicked inp"
  shows "filter carries_documents (rs @ run_requests inp pt docs ms) = [] \<or>
     (length (filter carries_documents (rs @ run_requests inp pt docs ms)) = 1 \<and>
      (if clear_clicked inp then [] else ms @ new_turns inp pt docs ms) \<noteq> [])"
proof -
  consider "run_requests inp pt docs ms = []" "new_turns inp pt docs ms = []"
    | p where "run_requests inp pt docs ms = [request_for pt docs (ms @ [user_turn p])]"
        "new_turns inp pt docs ms \<noteq> []"
    using run_requests_cases [of inp pt docs ms] by blast
  then show ?thesis
  proof cases
    case 1
    then show ?thesis using assms by auto
  next
    case 2
    have "ms = []" if "carries_documents (request_for pt docs (ms @ [user_turn p]))"
      using carries_documents_single [OF that] by simp
    then show ?thesis
      using assms 2 by auto
  qed
qed

lemma no_documents_step:
  assumes "ms \<noteq> [] \<and> filter carries_documents rs = []" and "\<not> clear_clicked inp"
  shows "(if clear_clicked inp then [] else ms @ new_turns inp pt docs ms) \<noteq> [] \<and>
     filter carries_documents (rs @ run_requests inp pt docs ms) = []"
proof -
  have "ms = []" if "carries_documents (request_for pt docs (ms @ [user_turn p]))" for p
    using carries_documents_single [OF that] by simp
  then show ?thesis
    using assms run_requests_cases [of inp pt docs ms] by auto
qed

lemma single_message_step:
  assumes "\<forall>req \<in> set rs. carries_documents req \<longrightarrow> length (req_messages req) = 1"
  shows "\<forall>req \<in> set (rs @ run_requests inp pt docs ms).
           carries_documents req \<longrightarrow> length (req_messages req) = 1"
proof -
  have "length (req_messages (request_for pt docs msgs)) = 1"
    if "carries_documents (request_for pt docs msgs)" for msgs
    using carries_documents_single [OF that]
    by (simp add: request_for_def length_payload_for)
  then show ?thesis
    using assms run_requests_cases [of inp pt docs ms] by auto
qed

lemma initialised_demo_state: "initialised demo_state"
  by (simp add: initialised_def demo_state_def)

lemma transcript_demo_state: "transcript demo_state = []"
  by (simp add: transcript_def demo_state_def)

lemma initialised_asked_state:
  "initialised (demo_state\<lparr>messages := Some [\<lparr>role = ''user'', content = ''When can I shower?''\<rparr>]\<rparr>)"
  by (simp add: initialised_def demo_state_def)

section \<open>The attachment rule of the payload\<close>

text \<open>
  C1. For a transcript \<open>msgs\<close> of any length, the payload assembled by lines 120-139 and
  sent by line 148 is: when the length is 1, a single \<^verbatim>\<open>user\<close> message whose content is the
  stored document list, in order, followed by one text item holding the content of the turn;
  when the length is not 1, one message per turn carrying its role and its plain text. The
  documents attached anywhere in the payload are those of the stored list in the first case
  and none in the second.
\<close>

theorem payload_attachment_rule:
  assumes "pdf_contents s = Some a" and "a < length (heap s)"
  shows "\<exists>s' api_messages.
     build_api_messages msgs s = Inr (s', api_messages) \<and>
     map (serialize (heap s')) api_messages =
       (if length msgs = 1
        then [\<lparr>payload_role = ''user'',
               payload_content = PayloadItems (heap s ! a @ [TextItem (content (msgs ! 0))])\<rparr>]
        else map (\<lambda>msg. \<lparr>payload_role = role msg, payload_content = PayloadText (content msg)\<rparr>) msgs) \<and>
     attachments (map (serialize (heap s')) api_messages) =
       (if length msgs = 1 then filter is_document (heap s ! a) else [])"
proof (cases "length msgs = 1")
  case True
  then show ?thesis
    using assms by (simp add: build_api_messages_eq serialize_def attachments_def)
next
  case False
  have "map (serialize (heap s)) (map (\<lambda>msg. \<lparr>msg_role = role msg, msg_content = PlainText (content msg)\<rparr>) msgs)
      = map (\<lambda>msg. \<lparr>payload_role = role msg, payload_content = PayloadText (content msg)\<rparr>) msgs"
    by (simp add: serialize_def)
  with False show ?thesis
    using assms by (simp add: build_api_messages_eq attachments_plain del: map_map)
qed

text \<open>The rule at the first prompt of the example session.\<close>

theorem payload_attachment_rule_witness:
  "pdf_contents demo_state = Some 0 \<and> 0 < length (heap demo_state) \<and>
   (\<exists>s' api_messages.
      build_api_messages [\<lparr>role = ''user'', content = ''When can I shower?''\<rparr>] demo_state
        = Inr (s', api_messages) \<and>
      map (serialize (heap s')) api_messages =
        [\<lparr>payload_role = ''user'',
          payload_content = PayloadItems (heap demo_state ! 0 @ [TextItem ''When can I shower?''])\<rparr>])"
proof -
  have h: "pdf_contents demo_state = Some 0" "0 < length (heap demo_state)"
    by (simp_all add: demo_state_def)
  show ?thesis
    using h payload_attachment_rule [OF h, of "[\<lparr>role = ''user'', content = ''When can I shower?''\<rparr>]"]
    by auto
qed

section \<open>The roles of the transcript\<close>




section \<open>A failed provider call\<close>

text \<open>
  C3. When the provider call of a prompt raises, after any number of increments, the
  transcript is the one before the prompt followed by the user turn only, the error line
  shows the message of the exception, the execution ends normally, and the script accepts
  whatever interaction comes next.
\<close>

theorem failed_call_keeps_user_turn:
  assumes "initialised s" and "chat_input inp = Some prompt" and "prompt \<noteq> []"
    and "\<not> clear_clicked inp"
  shows "\<exists>s' out t. script_run inp store s = Inr (s', [out]) \<and> turn_result out = Some t \<and>
      (\<forall>e. stream_end (provider inp (request_sent t)) = Raised e \<longrightarrow>
         messages s' = Some (transcript s @ [\<lparr>role = ''user'', content = prompt\<rparr>]) \<and>
         error_shown t = Some (''Error: '' @ e)) \<and>
      (\<forall>inp'. \<exists>s'' outs'. script_run inp' store s' = Inr (s'', outs'))"
proof -
  obtain s' out t where r: "script_run inp store s = Inr (s', [out])" "turn_result out = Some t"
    "initialised s'"
    "messages s' = Some (transcript s @ user_turn prompt #
                            reply_turns (provider inp (request_sent t)))"
    "error_shown t = (case stream_end (provider inp (request_sent t)) of
                         Completed \<Rightarrow> None | Raised e \<Rightarrow> Some (''Error: '' @ e))"
    using script_run_turn [OF assms, of store] by blast
  have "\<forall>inp'. \<exists>s'' outs'. script_run inp' store s' = Inr (s'', outs')"
    using script_run_total [OF r(3), of _ store] by blast
  moreover have "\<forall>e. stream_end (provider inp (request_sent t)) = Raised e \<longrightarrow>
         messages s' = Some (transcript s @ [\<lparr>role = ''user'', content = prompt\<rparr>]) \<and>
         error_shown t = Some (''Error: '' @ e)"
    using r(4,5) by (simp add: reply_turns_def user_turn_def)
  ultimately show ?thesis
    using r(1,2) by blast
qed

text \<open>A call that fails after one increment, at the first prompt of the example session.\<close>

theorem failed_call_keeps_user_turn_witness:
  "initialised demo_state \<and>
   chat_input (ask ''When can I shower?'' failing) = Some ''When can I shower?'' \<and>
   ''When can I shower?'' \<noteq> [] \<and> \<not> clear_clicked (ask ''When can I shower?'' failing) \<and>
   (\<exists>s' out t. script_run (ask ''When can I shower?'' failing) demo_store demo_state = Inr (s', [out]) \<and>
      turn_result out = Some t \<and>
      stream_end (provider (ask ''When can I shower?'' failing) (request_sent t))
        = Raised ''rate_limit_error'' \<and>
      messages s' = Some [\<lparr>role = ''user'', content = ''When can I shower?''\<rparr>] \<and>
      error_shown t = Some ''Error: rate_limit_error'')"
proof -
  let ?inp = "ask ''When can I shower?'' failing"
  have h: "chat_input ?inp = Some ''When can I shower?''" "''When can I shower?'' \<noteq> []"
    "\<not> clear_clicked ?inp"
    by (simp_all add: ask_def)
  have f: "stream_end (provider ?inp req) = Raised ''rate_limit_error''" for req
    by (simp add: ask_def failing_def)
  show ?thesis
    using failed_call_keeps_user_turn [OF initialised_demo_state h, of demo_store]
      initialised_demo_state h f transcript_demo_state
    by auto
qed

section \<open>The committed answer\<close>

text \<open>
  C4. When the provider call of a prompt completes, the assistant turn appended to the
  transcript holds the concatenation of the increments of that call, in order, and nothing
  else; it is also the last text the placeholder shows, without the continuation marker.
\<close>

theorem committed_text_is_concatenation:
  assumes "initialised s" and "chat_input inp = Some prompt" and "prompt \<noteq> []"
    and "\<not> clear_clicked inp"
  shows "\<exists>s' out t. script_run inp store s = Inr (s', [out]) \<and> turn_result out = Some t \<and>
      (stream_end (provider inp (request_sent t)) = Completed \<longrightarrow>
         messages s' = Some (transcript s @
           [\<lparr>role = ''user'', content = prompt\<rparr>,
            \<lparr>role = ''assistant'',
             content = concat (text_stream (provider inp (request_sent t)))\<rparr>]) \<and>
         last (placeholder t) = concat (text_stream (provider inp (request_sent t))) \<and>
         error_shown t = None)"
proof -
  obtain s' out t where r: "script_run inp store s = Inr (s', [out])" "turn_result out = Some t"
    "messages s' = Some (transcript s @ user_turn prompt #
                            reply_turns (provider inp (request_sent t)))"
    "error_shown t = (case stream_end (provider inp (request_sent t)) of
                         Completed \<Rightarrow> None | Raised e \<Rightarrow> Some (''Error: '' @ e))"
    "placeholder t = snd (text_loop [] (text_stream (provider inp (request_sent t)))) @
                      (case stream_end (provider inp (request_sent t)) of
                         Completed \<Rightarrow> [concat (text_stream (provider inp (request_sent t)))]
                       | Raised e \<Rightarrow> [])"
    using script_run_turn [OF assms, of store] by blast
  have "stream_end (provider inp (request_sent t)) = Completed \<longrightarrow>
         messages s' = Some (transcript s @
           [\<lparr>role = ''user'', content = prompt\<rparr>,
            \<lparr>role = ''assistant'',
             content = concat (text_stream (provider inp (request_sent t)))\<rparr>]) \<and>
         last (placeholder t) = concat (text_stream (provider inp (request_sent t))) \<and>
         error_shown t = None"
    using r(3,4,5) by (simp add: reply_turns_def user_turn_def)
  then show ?thesis
    using r(1,2) by blast
qed

text \<open>A call that completes after two increments.\<close>

theorem committed_text_is_concatenation_witness:
  "initialised demo_state \<and>
   chat_input (ask ''When can I shower?'' replying) = Some ''When can I shower?'' \<and>
   ''When can I shower?'' \<noteq> [] \<and> \<not> clear_clicked (ask ''When can I shower?'' replying) \<and>
   (\<exists>s' out t. script_run (ask ''When can I shower?'' replying) demo_store demo_state = Inr (s', [out]) \<and>
      turn_result out = Some t \<and>
      stream_end (provider (ask ''When can I shower?'' replying) (request_sent t)) = Completed \<and>
      messages s' = Some [\<lparr>role = ''user'', content = ''When can I shower?''\<rparr>,
                          \<lparr>role = ''assistant'', content = ''After two weeks.''\<rparr>])"
proof -
  let ?inp = "ask ''When can I shower?'' replying"
  have h: "chat_input ?inp = Some ''When can I shower?''" "''When can I shower?'' \<noteq> []"
    "\<not> clear_clicked ?inp"
    by (simp_all add: ask_def)
  have f: "stream_end (provider ?inp req) = Completed"
    "concat (text_stream (provider ?inp req)) = ''After two weeks.''" for req
    by (simp_all add: ask_def replying_def)
  show ?thesis
    using committed_text_is_concatenation [OF initialised_demo_state h, of demo_store]
      initialised_demo_state h f transcript_demo_state
    by auto
qed

section \<open>The protocol loader\<close>

lemma foldl_append_concat:
  "foldl (\<lambda>acc (name, text). (acc @ f name) @ text) acc files
     = acc @ concat (map (\<lambda>(name, text). f name @ text) files)"
  by (induction files arbitrary: acc) (auto simp: case_prod_beta)

text \<open>
  C5. The protocol loader returns the empty string when the protocols directory is absent
  and when it holds no entry matching \<^verbatim>\<open>*.txt\<close>; in every other case its result is the
  concatenation, in listing order over the matching entries, of the header
  \<^verbatim>\<open>\n\n=== <filename> ===\n\n\<close> followed by the entry's content.
\<close>

theorem load_protocols_spec:
  "load_protocols \<lparr>postop_handouts = pdfs, protocols = None\<rparr> = ''''
   \<and> load_protocols \<lparr>postop_handouts = pdfs,
         protocols = Some (filter (\<lambda>entry. \<not> suffix ''.txt'' (fst entry)) entries)\<rparr> = ''''
   \<and> load_protocols \<lparr>postop_handouts = pdfs, protocols = Some entries\<rparr>
       = concat (map (\<lambda>(name, text). ''\<newline>\<newline>=== '' @ name @ '' ===\<newline>\<newline>'' @ text)
                   (filter (\<lambda>entry. suffix ''.txt'' (fst entry)) entries))"
proof -
  have absent: "load_protocols \<lparr>postop_handouts = pdfs, protocols = None\<rparr> = ''''"
    by (simp add: load_protocols_def)
  have "load_protocols \<lparr>postop_handouts = pdfs, protocols = Some entries\<rparr>
       = concat (map (\<lambda>(name, text). protocol_header name @ text)
                   (filter (\<lambda>entry. suffix ''.txt'' (fst entry)) entries))"
    unfolding load_protocols_def glob_ext_def Let_def
    by (simp add: foldl_append_concat)
  also have "(\<lambda>(name, text). protocol_header name @ text)
       = (\<lambda>(name, text). ''\<newline>\<newline>=== '' @ name @ '' ===\<newline>\<newline>'' @ text)"
    by (simp add: protocol_header_def fun_eq_iff)
  finally have general: "load_protocols \<lparr>postop_handouts = pdfs, protocols = Some entries\<rparr>
       = concat (map (\<lambda>(name, text). ''\<newline>\<newline>=== '' @ name @ '' ===\<newline>\<newline>'' @ text)
                   (filter (\<lambda>entry. suffix ''.txt'' (fst entry)) entries))" .
  have nomatch: "load_protocols \<lparr>postop_handouts = pdfs,
         protocols = Some (filter (\<lambda>entry. \<not> suffix ''.txt'' (fst entry)) entries)\<rparr> = ''''"
    by (simp add: load_protocols_def glob_ext_def)
  from absent nomatch general show ?thesis by blast
qed

section \<open>The clear button\<close>

text \<open>
  C6. An interaction in which the clear button is clicked leaves an empty transcript; an
  interaction in which it is not clicked keeps every turn of the transcript, in place. In
  both cases the reference of the document list, the items of that list, the protocol text
  and the two counts of the sidebar are unchanged.
\<close>

theorem clear_history_frame:
  assumes "initialised s" and "pdf_contents s = Some a"
  shows "\<exists>s' outs. script_run inp store s = Inr (s', outs) \<and>
      pdf_contents s' = pdf_contents s \<and> protocols_text s' = protocols_text s \<and>
      heap s' ! a = heap s ! a \<and> sidebar s' = sidebar s \<and>
      (clear_clicked inp \<longrightarrow> messages s' = Some []) \<and>
      (\<not> clear_clicked inp \<longrightarrow> prefix (transcript s) (transcript s'))"
proof -
  from assms obtain ms pt where m: "messages s = Some ms" "protocols_text s = Some pt"
    and a: "a < length (heap s)"
    by (auto simp: initialised_def split: option.splits)
  obtain s' outs where r: "script_run inp store s = Inr (s', outs)"
    "messages s' = Some (if clear_clicked inp then [] else ms @ new_turns inp pt (heap s ! a) ms)"
    "pdf_contents s' = Some a" "protocols_text s' = Some pt" "heap s' ! a = heap s ! a"
    using script_run_step [OF init_initialised [OF assms(1)] m assms(2) a, of inp] by blast
  have "sidebar s' = sidebar s"
    using r(3,4,5) m(2) assms(2) by (simp add: sidebar_initialised)
  then show ?thesis
    using r m assms(2) by (auto simp: transcript_def)
qed

text \<open>A click on the clear button, and a page load, on a transcript of one turn.\<close>

theorem clear_history_frame_witness:
  "initialised (demo_state\<lparr>messages := Some [\<lparr>role = ''user'', content = ''When can I shower?''\<rparr>]\<rparr>) \<and>
   clear_clicked clear_click \<and> \<not> clear_clicked page_load \<and>
   (\<exists>s' outs. script_run clear_click demo_store
        (demo_state\<lparr>messages := Some [\<lparr>role = ''user'', content = ''When can I shower?''\<rparr>]\<rparr>)
        = Inr (s', outs) \<and>
      messages s' = Some [] \<and> pdf_contents s' = Some 0 \<and> heap s' ! 0 = heap demo_state ! 0 \<and>
      protocols_text s' = protocols_text demo_state) \<and>
   (\<exists>s' outs. script_run page_load demo_store
        (demo_state\<lparr>messages := Some [\<lparr>role = ''user'', content = ''When can I shower?''\<rparr>]\<rparr>)
        = Inr (s', outs) \<and>
      prefix [\<lparr>role = ''user'', content = ''When can I shower?''\<rparr>] (transcript s'))"
proof -
  let ?s = "demo_state\<lparr>messages := Some [\<lparr>role = ''user'', content = ''When can I shower?''\<rparr>]\<rparr>"
  have a: "pdf_contents ?s = Some 0"
    by (simp add: demo_state_def)
  have c: "clear_clicked clear_click" "\<not> clear_clicked page_load"
    by (simp_all add: clear_click_def page_load_def)
  have t: "transcript ?s = [\<lparr>role = ''user'', content = ''When can I shower?''\<rparr>]"
    "heap ?s = heap demo_state" "protocols_text ?s = protocols_text demo_state"
    by (simp_all add: transcript_def)
  show ?thesis
    using clear_history_frame [OF initialised_asked_state a, of clear_click demo_store]
      clear_history_frame [OF initialised_asked_state a, of page_load demo_store]
      initialised_asked_state a c t
    by auto
qed

section \<open>Empty input\<close>

text \<open>
  C7, as amended. When \<^verbatim>\<open>st.chat_input\<close> returns nothing or the empty string, the
  execution changes nothing in the session state, assembles no payload and calls no
  provider. Every other string it returns, made of whitespace or not, is handled as a
  prompt: a request is sent and the user turn is appended.
\<close>

theorem empty_input_ignored:
  assumes "initialised s" and "\<not> clear_clicked inp"
  shows "\<exists>s' out. script_run inp store s = Inr (s', [out]) \<and>
      (chat_input inp = None \<or> chat_input inp = Some [] \<longrightarrow> s' = s \<and> turn_result out = None) \<and>
      (\<forall>prompt. chat_input inp = Some prompt \<and> prompt \<noteq> [] \<longrightarrow>
         turn_result out \<noteq> None \<and>
         prefix (transcript s @ [\<lparr>role = ''user'', content = prompt\<rparr>]) (transcript s'))"
proof (cases "submitted inp")
  case None
  from assms(1) obtain ms pt a where m: "messages s = Some ms" "protocols_text s = Some pt"
    and a: "pdf_contents s = Some a" "a < length (heap s)"
    by (auto simp: initialised_def split: option.splits)
  obtain s' out where b: "script_body inp store s = Inr (s', out)"
    and f: "rerun out = clear_clicked inp"
      "submitted inp = None \<and> \<not> clear_clicked inp \<longrightarrow> s' = s"
    and g: "case submitted inp of
         None \<Rightarrow> turn_result out = None
       | Some p \<Rightarrow>
           \<exists>t. turn_result out = Some t \<and>
             request_sent t = request_for pt (heap s ! a) (ms @ [user_turn p]) \<and>
             error_shown t = (case stream_end (provider inp (request_sent t)) of
                                Completed \<Rightarrow> None | Raised e \<Rightarrow> Some (''Error: '' @ e)) \<and>
             placeholder t = snd (text_loop [] (text_stream (provider inp (request_sent t)))) @
                        (case stream_end (provider inp (request_sent t)) of
                           Completed \<Rightarrow> [concat (text_stream (provider inp (request_sent t)))]
                         | Raised e \<Rightarrow> [])"
    using script_body_step [OF init_initialised [OF assms(1)] m a, of inp] by blast
  have run: "script_run inp store s = Inr (s, [out])" "turn_result out = None"
    using b f g None assms(2) by (simp_all add: script_run_def)
  have "\<not> (\<exists>prompt. chat_input inp = Some prompt \<and> prompt \<noteq> [])"
    using None by (auto simp: submitted_def split: option.splits if_splits)
  then show ?thesis
    using run by blast
next
  case (Some p)
  then have c: "chat_input inp = Some p" "p \<noteq> []"
    by (auto simp: submitted_def split: option.splits if_splits)
  obtain s' out t where r: "script_run inp store s = Inr (s', [out])" "turn_result out = Some t"
    "messages s' = Some (transcript s @ user_turn p #
                            reply_turns (provider inp (request_sent t)))"
    using script_run_turn [OF assms(1) c assms(2), of store] by blast
  have "prefix (transcript s @ [\<lparr>role = ''user'', content = p\<rparr>]) (transcript s')"
    using r(3) by (simp add: transcript_def user_turn_def prefix_def)
  then show ?thesis
    using r(1,2) c by auto
qed

text \<open>The empty string, and a string of one space, after the page load of the example session.\<close>

theorem empty_input_ignored_witness:
  "initialised demo_state \<and> \<not> clear_clicked (ask [] replying) \<and>
   \<not> clear_clicked (ask '' '' replying) \<and>
   (chat_input (ask [] replying) = None \<or> chat_input (ask [] replying) = Some []) \<and>
   (\<exists>out. script_run (ask [] replying) demo_store demo_state = Inr (demo_state, [out]) \<and>
      turn_result out = None) \<and>
   chat_input (ask '' '' replying) = Some '' '' \<and> '' '' \<noteq> [] \<and>
   (\<exists>s' out. script_run (ask '' '' replying) demo_store demo_state = Inr (s', [out]) \<and>
      turn_result out \<noteq> None \<and>
      prefix [\<lparr>role = ''user'', content = '' ''\<rparr>] (transcript s'))"
proof -
  have c: "\<not> clear_clicked (ask [] replying)" "\<not> clear_clicked (ask '' '' replying)"
    "chat_input (ask [] replying) = Some []" "chat_input (ask '' '' replying) = Some '' ''"
    by (simp_all add: ask_def)
  have "\<exists>out. script_run (ask [] replying) demo_store demo_state = Inr (demo_state, [out]) \<and>
      turn_result out = None"
    using empty_input_ignored [OF initialised_demo_state c(1), of demo_store] c(3) by auto
  moreover have "\<exists>s' out. script_run (ask '' '' replying) demo_store demo_state = Inr (s', [out]) \<and>
      turn_result out \<noteq> None \<and>
      prefix [\<lparr>role = ''user'', content = '' ''\<rparr>] (transcript s')"
    using empty_input_ignored [OF initialised_demo_state c(2), of demo_store] c(4)
      transcript_demo_state
    by auto
  ultimately show ?thesis
    using initialised_demo_state c by simp
qed

text \<open>
  C7 as stated fails: a prompt of one space is appended to the transcript, sent to the
  provider and answered.
\<close>

theorem whitespace_input_counterexample:
  "final_transcript demo_store [page_load] = Some [] \<and>
   final_transcript demo_store [page_load, ask '' '' replying]
     = Some [\<lparr>role = ''user'', content = '' ''\<rparr>,
             \<lparr>role = ''assistant'', content = ''After two weeks.''\<rparr>] \<and>
   length (session_requests demo_store [page_load, ask '' '' replying]) = 1"
  by code_simp

section \<open>The protocol count of the sidebar\<close>

text \<open>
  The count of line 180 in general: when neither the name nor the content of a loaded
  protocol file holds the character \<^verbatim>\<open>=\<close>, the number is twice the number of files.
\<close>

lemma str_count_skip:
  "CHR ''='' \<notin> set t \<Longrightarrow> str_count ''==='' (t @ rest) = str_count ''==='' rest"
  by (induction t) auto

lemma str_count_marker:
  "str_count ''==='' (''==='' @ rest) = Suc (str_count ''==='' rest)"
  by simp

lemma str_count_header:
  assumes "CHR ''='' \<notin> set name" "CHR ''='' \<notin> set body"
  shows "str_count ''==='' ((protocol_header name @ body) @ rest) = 2 + str_count ''==='' rest"
proof -
  let ?r3 = "(''\<newline>\<newline>'' @ body) @ rest"
  let ?r2 = "('' '' @ name @ '' '') @ (''==='' @ ?r3)"
  have n1: "CHR ''='' \<notin> set ''\<newline>\<newline>''" by simp
  have n2: "CHR ''='' \<notin> set ('' '' @ name @ '' '')" using assms(1) by simp
  have n3: "CHR ''='' \<notin> set (''\<newline>\<newline>'' @ body)" using assms(2) by simp
  have "(protocol_header name @ body) @ rest = ''\<newline>\<newline>'' @ (''==='' @ ?r2)"
    by (simp add: protocol_header_def)
  then have "str_count ''==='' ((protocol_header name @ body) @ rest)
      = str_count ''==='' (''\<newline>\<newline>'' @ (''==='' @ ?r2))"
    by (rule arg_cong)
  also have "\<dots> = str_count ''==='' (''==='' @ ?r2)"
    by (rule str_count_skip [OF n1])
  also have "\<dots> = Suc (str_count ''==='' ?r2)"
    by (rule str_count_marker)
  also have "str_count ''==='' ?r2 = str_count ''==='' (''==='' @ ?r3)"
    by (rule str_count_skip [OF n2])
  also have "\<dots> = Suc (str_count ''==='' ?r3)"
    by (rule str_count_marker)
  also have "str_count ''==='' ?r3 = str_count ''==='' rest"
    by (rule str_count_skip [OF n3])
  finally show ?thesis by simp
qed

lemma str_count_protocols:
  assumes "\<forall>entry \<in> set files. CHR ''='' \<notin> set (fst entry) \<and> CHR ''='' \<notin> set (snd entry)"
  shows "str_count ''==='' (concat (map (\<lambda>(name, body). protocol_header name @ body) files))
     = 2 * length files"
  using assms
proof (induction files)
  case Nil
  then show ?case by simp
next
  case (Cons entry files)
  obtain name body where e: "entry = (name, body)" by (cases entry)
  show ?case
    using Cons e str_count_header [of name body] by simp
qed

lemma protocol_count_doubles:
  assumes "protocols store = Some entries" and "glob_ext ''.txt'' entries \<noteq> []"
    and "\<forall>entry \<in> set (glob_ext ''.txt'' entries).
           CHR ''='' \<notin> set (fst entry) \<and> CHR ''='' \<notin> set (snd entry)"
  shows "protocol_count (load_protocols store) = Some (2 * length (glob_ext ''.txt'' entries))"
proof -
  let ?files = "glob_ext ''.txt'' entries"
  have l: "load_protocols store = concat (map (\<lambda>(name, body). protocol_header name @ body) ?files)"
    using assms(1,2) by (simp add: load_protocols_def foldl_append_concat)
  obtain name body rest where f: "?files = (name, body) # rest"
    using assms(2) by (cases ?files) auto
  have "load_protocols store \<noteq> []"
    unfolding l f by (simp add: protocol_header_def)
  then show ?thesis
    using str_count_protocols [OF assms(3)] l by (simp add: protocol_count_def)
qed

text \<open>
  C8. With the two protocol files \<^verbatim>\<open>wound_care.txt\<close> and \<^verbatim>\<open>pt_schedule.txt\<close>, the protocol
  text holds both headers in listing order, and the number the sidebar writes after
  \<^verbatim>\<open>Protocol Files:\<close> is 4, not 2: line 180 counts the marker \<^verbatim>\<open>===\<close>, which every header
  holds twice.
\<close>

theorem protocol_count_two_files:
  "load_protocols demo_store =
     ''\<newline>\<newline>=== wound_care.txt ===\<newline>\<newline>Keep dry.\<newline>\<newline>=== pt_schedule.txt ===\<newline>\<newline>Week 1: rest.'' \<and>
   protocol_count (load_protocols demo_store) = Some 4 \<and>
   sidebar demo_state = Inr \<lparr>pdf_handouts = 2, protocol_files = Some 4\<rparr>"
  by code_simp

section \<open>The reference bundle is not mutated\<close>

text \<open>
  C9. Assembling the messages of a request, for any transcript, leaves the reference of
  \<^verbatim>\<open>pdf_contents\<close>, the items of the list it names and the protocol text as they were: the
  text item of line 125 is appended to a copy. The same holds over any sequence of
  interactions from an initialised state, and from the first execution of a session on the
  list holds what \<^verbatim>\<open>load_pdfs\<close> returned and the protocol text what \<^verbatim>\<open>load_protocols\<close>
  returned.
\<close>

theorem bundle_never_mutated:
  assumes "initialised s" and "pdf_contents s = Some a"
  shows "(\<forall>msgs. \<exists>s' api_messages. build_api_messages msgs s = Inr (s', api_messages) \<and>
            pdf_contents s' = Some a \<and> heap s' ! a = heap s ! a \<and>
            protocols_text s' = protocols_text s) \<and>
         (\<forall>inps. \<exists>s' outs. session_trace store inps s = Inr (s', outs) \<and>
            pdf_contents s' = Some a \<and> heap s' ! a = heap s ! a \<and>
            protocols_text s' = protocols_text s) \<and>
         (\<forall>inp inps. \<exists>s' outs. session_trace store (inp # inps) new_session = Inr (s', outs) \<and>
            pdf_contents s' = Some 0 \<and> heap s' ! 0 = snd (load_pdfs store) \<and>
            protocols_text s' = Some (load_protocols store))"
proof -
  have a: "a < length (heap s)"
    using assms by (simp add: initialised_def)
  have "\<exists>s' api_messages. build_api_messages msgs s = Inr (s', api_messages) \<and>
            pdf_contents s' = Some a \<and> heap s' ! a = heap s ! a \<and>
            protocols_text s' = protocols_text s" for msgs
    using assms(2) a by (simp add: build_api_messages_eq nth_append)
  moreover have "\<exists>s' outs. session_trace store inps s = Inr (s', outs) \<and>
            pdf_contents s' = Some a \<and> heap s' ! a = heap s ! a \<and>
            protocols_text s' = protocols_text s" for inps
    using session_trace_initialised [OF assms, of store inps] by blast
  moreover have "\<exists>s' outs. session_trace store (inp # inps) new_session = Inr (s', outs) \<and>
            pdf_contents s' = Some 0 \<and> heap s' ! 0 = snd (load_pdfs store) \<and>
            protocols_text s' = Some (load_protocols store)" for inp inps
    using session_trace_new_bundle [of "inp # inps" store] by simp
  ultimately show ?thesis by blast
qed

text \<open>The first prompt of the example session, and a session of three interactions.\<close>

theorem bundle_never_mutated_witness:
  "initialised demo_state \<and> pdf_contents demo_state = Some 0 \<and>
   (\<exists>s' api_messages.
      build_api_messages [\<lparr>role = ''user'', content = ''When can I shower?''\<rparr>] demo_state
        = Inr (s', api_messages) \<and>
      pdf_contents s' = Some 0 \<and> heap s' ! 0 = heap demo_state ! 0) \<and>
   (\<exists>s' outs. session_trace demo_store
        [ask ''When can I shower?'' replying, clear_click, ask ''When can I drive?'' failing]
        demo_state = Inr (s', outs) \<and>
      pdf_contents s' = Some 0 \<and> heap s' ! 0 = heap demo_state ! 0 \<and>
      protocols_text s' = protocols_text demo_state) \<and>
   (\<exists>s' outs. session_trace demo_store [page_load, ask ''When can I shower?'' replying] new_session
        = Inr (s', outs) \<and>
      pdf_contents s' = Some 0 \<and> heap s' ! 0 = snd (load_pdfs demo_store))"
proof -
  have a: "pdf_contents demo_state = Some 0"
    by (simp add: demo_state_def)
  note b = bundle_never_mutated [OF initialised_demo_state a, of demo_store]
  from b have "\<exists>s' api_messages.
      build_api_messages [\<lparr>role = ''user'', content = ''When can I shower?''\<rparr>] demo_state
        = Inr (s', api_messages) \<and>
      pdf_contents s' = Some 0 \<and> heap s' ! 0 = heap demo_state ! 0"
    by blast
  moreover from b have "\<exists>s' outs. session_trace demo_store
        [ask ''When can I shower?'' replying, clear_click, ask ''When can I drive?'' failing]
        demo_state = Inr (s', outs) \<and>
      pdf_contents s' = Some 0 \<and> heap s' ! 0 = heap demo_state ! 0 \<and>
      protocols_text s' = protocols_text demo_state"
    by blast
  moreover from b have "\<exists>s' outs. session_trace demo_store
        [page_load, ask ''When can I shower?'' replying] new_session = Inr (s', outs) \<and>
      pdf_contents s' = Some 0 \<and> heap s' ! 0 = snd (load_pdfs demo_store)"
    by blast
  ultimately show ?thesis
    using initialised_demo_state a by blast
qed

section \<open>When documents are sent\<close>

lemma carries_documents_first:
  "carries_documents (request_for pt docs [user_turn p]) = (filter is_document docs \<noteq> [])"
  by (simp add: carries_documents_def request_for_def payload_for_def attachments_def)

lemma session_trace_documents:
  assumes i: "initialised s0"
  shows "\<exists>s' outs'. session_trace store inps s0 = Inr (s', outs') \<and>
      (\<forall>req \<in> set (requests_of outs'). carries_documents req \<longrightarrow> length (req_messages req) = 1) \<and>
      ((\<forall>inp \<in> set inps. \<not> clear_clicked inp) \<longrightarrow>
         length (filter carries_documents (requests_of outs')) \<le> 1 \<and>
         (transcript s0 \<noteq> [] \<longrightarrow> filter carries_documents (requests_of outs') = []))"
proof -
  obtain a where a: "pdf_contents s0 = Some a"
    using i by (auto simp: initialised_def split: option.splits)
  obtain s' outs' where t: "session_trace store inps s0 = Inr (s', outs')"
    using session_trace_initialised [OF i a, of store inps] by blast
  have single: "\<forall>req \<in> set (requests_of outs'). carries_documents req \<longrightarrow> length (req_messages req) = 1"
  proof -
    have "\<exists>s' outs. session_trace store inps s0 = Inr (s', outs) \<and> initialised s' \<and>
        (\<forall>req \<in> set ([] @ requests_of outs). carries_documents req \<longrightarrow> length (req_messages req) = 1)"
      by (rule session_trace_invariant
            [of s0 "\<lambda>ms rs. \<forall>req \<in> set rs. carries_documents req \<longrightarrow> length (req_messages req) = 1"
               "[]" inps store])
         (use i single_message_step in auto)
    then show ?thesis using t by auto
  qed
  have once: "length (filter carries_documents (requests_of outs')) \<le> 1"
    if c: "\<forall>inp \<in> set inps. \<not> clear_clicked inp"
  proof -
    have "\<exists>s' outs. session_trace store inps s0 = Inr (s', outs) \<and> initialised s' \<and>
        (filter carries_documents ([] @ requests_of outs) = [] \<or>
         (length (filter carries_documents ([] @ requests_of outs)) = 1 \<and> transcript s' \<noteq> []))"
      by (rule session_trace_invariant
            [of s0 "\<lambda>ms rs. filter carries_documents rs = [] \<or>
                          (length (filter carries_documents rs) = 1 \<and> ms \<noteq> [])" "[]" inps store])
         (use i c documents_once_step in auto)
    then show ?thesis using t by auto
  qed
  have none: "filter carries_documents (requests_of outs') = []"
    if c: "\<forall>inp \<in> set inps. \<not> clear_clicked inp" and n: "transcript s0 \<noteq> []"
  proof -
    have "\<exists>s' outs. session_trace store inps s0 = Inr (s', outs) \<and> initialised s' \<and>
        (transcript s' \<noteq> [] \<and> filter carries_documents ([] @ requests_of outs) = [])"
      by (rule session_trace_invariant
            [of s0 "\<lambda>ms rs. ms \<noteq> [] \<and> filter carries_documents rs = []" "[]" inps store])
         (use i n c no_documents_step in auto)
    then show ?thesis using t by auto
  qed
  show ?thesis
    using t single once none by blast
qed

lemma script_run_documents:
  assumes i: "initialised s0"
  shows "\<exists>s' outs'. script_run inp store s0 = Inr (s', outs') \<and>
      (\<forall>req \<in> set (requests_of outs'). carries_documents req \<longrightarrow> transcript s0 = [])"
proof -
  from i obtain ms pt a where m: "messages s0 = Some ms" "protocols_text s0 = Some pt"
    and a: "pdf_contents s0 = Some a" "a < length (heap s0)"
    by (auto simp: initialised_def split: option.splits)
  obtain s' outs' where r: "script_run inp store s0 = Inr (s', outs')"
    "requests_of outs' = run_requests inp pt (heap s0 ! a) ms"
    using script_run_step [OF init_initialised [OF i] m a, of inp] by blast
  have "ms = []" if "carries_documents (request_for pt (heap s0 ! a) (ms @ [user_turn p]))" for p
    using carries_documents_single [OF that] by simp
  then have "\<forall>req \<in> set (requests_of outs'). carries_documents req \<longrightarrow> transcript s0 = []"
    using r(2) m(1) run_requests_cases [of inp pt "heap s0 ! a" ms]
    by (auto simp: transcript_def)
  then show ?thesis using r(1) by blast
qed

lemma documents_again_after_clear:
  assumes i: "initialised s0" and a: "pdf_contents s0 = Some a"
    and d: "filter is_document (heap s0 ! a) \<noteq> []"
    and c: "clear_clicked inp1" and p: "chat_input inp2 = Some prompt" "prompt \<noteq> []"
  shows "\<exists>s1 outs1 s2 outs2 req.
      script_run inp1 store s0 = Inr (s1, outs1) \<and> transcript s1 = [] \<and>
      script_run inp2 store s1 = Inr (s2, outs2) \<and>
      requests_of outs2 = [req] \<and> carries_documents req \<and> length (req_messages req) = 1"
proof -
  from i a obtain ms pt where m: "messages s0 = Some ms" "protocols_text s0 = Some pt"
    and al: "a < length (heap s0)"
    by (auto simp: initialised_def split: option.splits)
  obtain s1 outs1 where r1: "script_run inp1 store s0 = Inr (s1, outs1)" "initialised s1"
    "messages s1 = Some (if clear_clicked inp1 then [] else ms @ new_turns inp1 pt (heap s0 ! a) ms)"
    "pdf_contents s1 = Some a" "protocols_text s1 = Some pt"
    "a < length (heap s1)" "heap s1 ! a = heap s0 ! a"
    using script_run_step [OF init_initialised [OF i] m a al, of inp1] by blast
  have m1: "messages s1 = Some []"
    using r1(3) c by simp
  obtain s2 outs2 where r2: "script_run inp2 store s1 = Inr (s2, outs2)"
    "requests_of outs2 = run_requests inp2 pt (heap s1 ! a) []"
    using script_run_step [OF init_initialised [OF r1(2)] m1 r1(5) r1(4) r1(6), of inp2] by blast
  have sub: "submitted inp2 = Some prompt"
    using p by (simp add: submitted_def)
  let ?req = "request_for pt (heap s0 ! a) [user_turn prompt]"
  have q: "requests_of outs2 = [?req]"
    using r2(2) sub r1(7) by (simp add: run_requests_def)
  have "carries_documents ?req"
    using d by (simp add: carries_documents_first)
  moreover have "length (req_messages ?req) = 1"
    by (simp add: request_for_def length_payload_for)
  ultimately show ?thesis
    using r1(1) r2(1) q m1 by (auto simp: transcript_def)
qed

text \<open>
  C10, as amended. A request that carries documents has exactly one message, and it is
  sent by an interaction that starts on an empty transcript, so that the transcript has
  length 1 at the call. In a session from its first execution, and in any stretch of
  interactions from any initialised state, in which the clear button is never clicked, at
  most one request carries documents, and none when the stretch starts on a transcript
  that is not empty (for instance after a first call that failed). After a click on the
  clear button the transcript is empty and, when the stored list holds a document, the
  request of the next prompt carries the documents again.
\<close>

theorem documents_only_with_first_turn:
  "(\<exists>s outs. session_trace store inps new_session = Inr (s, outs) \<and>
      (\<forall>req \<in> set (requests_of outs). carries_documents req \<longrightarrow> length (req_messages req) = 1) \<and>
      ((\<forall>inp \<in> set inps. \<not> clear_clicked inp) \<longrightarrow>
         length (filter carries_documents (requests_of outs)) \<le> 1)) \<and>
   (\<forall>s0. initialised s0 \<longrightarrow>
      (\<exists>s' outs'. script_run inp0 store s0 = Inr (s', outs') \<and>
         (\<forall>req \<in> set (requests_of outs'). carries_documents req \<longrightarrow> transcript s0 = [])) \<and>
      (\<exists>s' outs'. session_trace store inps s0 = Inr (s', outs') \<and>
         (\<forall>req \<in> set (requests_of outs'). carries_documents req \<longrightarrow> length (req_messages req) = 1) \<and>
         ((\<forall>inp \<in> set inps. \<not> clear_clicked inp) \<longrightarrow>
            length (filter carries_documents (requests_of outs')) \<le> 1 \<and>
            (transcript s0 \<noteq> [] \<longrightarrow> filter carries_documents (requests_of outs') = []))) \<and>
      (\<forall>a inp1 inp2 prompt.
         pdf_contents s0 = Some a \<and> filter is_document (heap s0 ! a) \<noteq> [] \<and>
         clear_clicked inp1 \<and> chat_input inp2 = Some prompt \<and> prompt \<noteq> [] \<longrightarrow>
         (\<exists>s1 outs1 s2 outs2 req.
            script_run inp1 store s0 = Inr (s1, outs1) \<and> transcript s1 = [] \<and>
            script_run inp2 store s1 = Inr (s2, outs2) \<and>
            requests_of outs2 = [req] \<and> carries_documents req \<and> length (req_messages req) = 1)))"
proof -
  obtain s outs where t: "session_trace store inps new_session = Inr (s, outs)"
    using session_trace_reachable [of store inps] by blast
  have single: "\<forall>req \<in> set (requests_of outs). carries_documents req \<longrightarrow> length (req_messages req) = 1"
  proof -
    have "\<exists>s' outs. session_trace store inps new_session = Inr (s', outs) \<and>
        (\<forall>req \<in> set (requests_of outs). carries_documents req \<longrightarrow> length (req_messages req) = 1)"
      by (rule session_trace_new_invariant
            [of "\<lambda>ms rs. \<forall>req \<in> set rs. carries_documents req \<longrightarrow> length (req_messages req) = 1"
               inps store])
         (use single_message_step in auto)
    then show ?thesis using t by auto
  qed
  have once: "length (filter carries_documents (requests_of outs)) \<le> 1"
    if c: "\<forall>inp \<in> set inps. \<not> clear_clicked inp"
  proof -
    have "\<exists>s' outs. session_trace store inps new_session = Inr (s', outs) \<and>
        (filter carries_documents (requests_of outs) = [] \<or>
         (length (filter carries_documents (requests_of outs)) = 1 \<and> transcript s' \<noteq> []))"
      by (rule session_trace_new_invariant
            [of "\<lambda>ms rs. filter carries_documents rs = [] \<or>
                          (length (filter carries_documents rs) = 1 \<and> ms \<noteq> [])" inps store])
         (use c documents_once_step in auto)
    then show ?thesis using t by auto
  qed
  have fresh: "\<exists>s outs. session_trace store inps new_session = Inr (s, outs) \<and>
      (\<forall>req \<in> set (requests_of outs). carries_documents req \<longrightarrow> length (req_messages req) = 1) \<and>
      ((\<forall>inp \<in> set inps. \<not> clear_clicked inp) \<longrightarrow>
         length (filter carries_documents (requests_of outs)) \<le> 1)"
    using t single once by blast
  have again: "\<forall>a inp1 inp2 prompt.
         pdf_contents s0 = Some a \<and> filter is_document (heap s0 ! a) \<noteq> [] \<and>
         clear_clicked inp1 \<and> chat_input inp2 = Some prompt \<and> prompt \<noteq> [] \<longrightarrow>
         (\<exists>s1 outs1 s2 outs2 req.
            script_run inp1 store s0 = Inr (s1, outs1) \<and> transcript s1 = [] \<and>
            script_run inp2 store s1 = Inr (s2, outs2) \<and>
            requests_of outs2 = [req] \<and> carries_documents req \<and> length (req_messages req) = 1)"
    if i: "initialised s0" for s0
    using documents_again_after_clear [OF i, of _ _ _ _ store] by blast
  show ?thesis
    using fresh script_run_documents [of _ inp0 store] session_trace_documents [of _ store inps]
      again
    by (intro conjI allI impI) blast+
qed

text \<open>
  A session whose first call fails: the first request carries the documents, the second
  does not; the same interactions after a page load send them at most once and, from a
  transcript of one turn, never; and a prompt after a click on the clear button sends
  them again.
\<close>

theorem documents_only_with_first_turn_witness:
  "\<not> clear_clicked page_load \<and> \<not> clear_clicked (ask ''When can I shower?'' failing) \<and>
   \<not> clear_clicked (ask ''When can I shower?'' replying) \<and>
   initialised demo_state \<and> transcript demo_state = [] \<and>
   initialised (demo_state\<lparr>messages := Some [\<lparr>role = ''user'', content = ''When can I shower?''\<rparr>]\<rparr>) \<and>
   transcript (demo_state\<lparr>messages := Some [\<lparr>role = ''user'', content = ''When can I shower?''\<rparr>]\<rparr>) \<noteq> [] \<and>
   length (filter carries_documents (session_requests demo_store
      [page_load, ask ''When can I shower?'' failing, ask ''When can I shower?'' replying])) = 1 \<and>
   (\<exists>req. req \<in> set (session_requests demo_store
        [page_load, ask ''When can I shower?'' failing, ask ''When can I shower?'' replying]) \<and>
      carries_documents req \<and> length (req_messages req) = 1) \<and>
   (\<exists>s' outs'. session_trace demo_store
        [page_load, ask ''When can I shower?'' failing, ask ''When can I shower?'' replying]
        demo_state = Inr (s', outs') \<and>
      length (filter carries_documents (requests_of outs')) \<le> 1) \<and>
   (\<exists>s' outs'. session_trace demo_store
        [page_load, ask ''When can I shower?'' failing, ask ''When can I shower?'' replying]
        (demo_state\<lparr>messages := Some [\<lparr>role = ''user'', content = ''When can I shower?''\<rparr>]\<rparr>)
        = Inr (s', outs') \<and>
      filter carries_documents (requests_of outs') = []) \<and>
   pdf_contents demo_state = Some 0 \<and> filter is_document (heap demo_state ! 0) \<noteq> [] \<and>
   clear_clicked clear_click \<and>
   chat_input (ask ''When can I drive?'' replying) = Some ''When can I drive?'' \<and>
   (\<exists>s1 outs1 s2 outs2 req.
      script_run clear_click demo_store demo_state = Inr (s1, outs1) \<and> transcript s1 = [] \<and>
      script_run (ask ''When can I drive?'' replying) demo_store s1 = Inr (s2, outs2) \<and>
      requests_of outs2 = [req] \<and> carries_documents req)"
proof -
  let ?inps = "[page_load, ask ''When can I shower?'' failing, ask ''When can I shower?'' replying]"
  let ?s = "demo_state\<lparr>messages := Some [\<lparr>role = ''user'', content = ''When can I shower?''\<rparr>]\<rparr>"
  have c: "\<forall>inp \<in> set ?inps. \<not> clear_clicked inp"
    by (simp add: page_load_def ask_def)
  have n: "transcript ?s \<noteq> []"
    by (simp add: transcript_def)
  have one: "length (filter carries_documents (session_requests demo_store ?inps)) = 1"
    by code_simp
  have a: "pdf_contents demo_state = Some 0"
    by (simp add: demo_state_def)
  have docs: "filter is_document (heap demo_state ! 0) \<noteq> []"
    by code_simp
  have k: "clear_clicked clear_click"
    "chat_input (ask ''When can I drive?'' replying) = Some ''When can I drive?''"
    "''When can I drive?'' \<noteq> []"
    by (simp_all add: clear_click_def ask_def)
  note d = documents_only_with_first_turn [of demo_store ?inps page_load]
  from d obtain s outs where t: "session_trace demo_store ?inps new_session = Inr (s, outs)"
    "\<forall>req \<in> set (requests_of outs). carries_documents req \<longrightarrow> length (req_messages req) = 1"
    by blast
  have r: "session_requests demo_store ?inps = requests_of outs"
    using t(1) by (simp add: session_requests_def)
  have ex: "\<exists>req. req \<in> set (session_requests demo_store ?inps) \<and>
      carries_documents req \<and> length (req_messages req) = 1"
  proof -
    from one have "filter carries_documents (session_requests demo_store ?inps) \<noteq> []"
      by auto
    then obtain req where "req \<in> set (session_requests demo_store ?inps)" "carries_documents req"
      by (auto simp: filter_empty_conv)
    then show ?thesis
      using t(2) r by auto
  qed
  from d initialised_demo_state c
  have stretch: "\<exists>s' outs'. session_trace demo_store ?inps demo_state = Inr (s', outs') \<and>
      length (filter carries_documents (requests_of outs')) \<le> 1"
    by blast
  from d initialised_asked_state n c
  have later: "\<exists>s' outs'. session_trace demo_store ?inps ?s = Inr (s', outs') \<and>
      filter carries_documents (requests_of outs') = []"
    by blast
  from d initialised_demo_state a docs k
  have again: "\<exists>s1 outs1 s2 outs2 req.
      script_run clear_click demo_store demo_state = Inr (s1, outs1) \<and> transcript s1 = [] \<and>
      script_run (ask ''When can I drive?'' replying) demo_store s1 = Inr (s2, outs2) \<and>
      requests_of outs2 = [req] \<and> carries_documents req"
    by blast
  show ?thesis
    using c initialised_demo_state transcript_demo_state initialised_asked_state n one ex
      stretch later a docs k(1,2) again
    by simp
qed

text \<open>
  C10 as stated fails: after a click on the clear button the next prompt is again the
  only turn of the transcript, and its request carries the documents a second time.
\<close>

theorem documents_twice_counterexample:
  "length (filter carries_documents
     (session_requests demo_store
        [page_load, ask ''When can I shower?'' replying, clear_click,
         ask ''When can I drive?'' replying])) = 2"
  by code_simp

end
